theory Spec2Isabelle
  imports Complex_Main "HOL-Library.Word" "HOL-Library.Multiset" "HOL-Library.AList"
begin

unbundle bit_operations_syntax

section \<open>Python values, exceptions and string helpers\<close>

text \<open>
  SystemReporter.py is a Python script whose nine probes query the host through
  \<^verbatim>\<open>platform\<close>, \<^verbatim>\<open>socket\<close>, \<^verbatim>\<open>uuid\<close>, \<^verbatim>\<open>winreg\<close>, \<^verbatim>\<open>subprocess\<close>, \<^verbatim>\<open>os\<close> and \<^verbatim>\<open>psutil\<close>.
  Every external call is modelled by its outcome: \<open>Inl e\<close> when the call raises the
  exception \<open>e\<close>, \<open>Inr v\<close> when it returns \<open>v\<close>. A \<^verbatim>\<open>try\<close>/\<^verbatim>\<open>except\<close> of the source is a case
  distinction on that outcome; a call outside any \<^verbatim>\<open>try\<close> hands its \<open>Inl\<close> on to the caller.
\<close>

datatype exc_class =
    OSError | FileNotFoundError | PermissionError | GaiError
  | TypeError | IndexError | KeyError | OverflowError
  | NoSuchProcess | AccessDenied | ZombieProcess

datatype py_exc = PyExc (exc_class: exc_class) (exc_str: string)

type_synonym 'a res = "py_exc + 'a"

definition bind_res :: "'a res \<Rightarrow> ('a \<Rightarrow> 'b res) \<Rightarrow> 'b res" where
  "bind_res m f = (case m of Inl e \<Rightarrow> Inl e | Inr v \<Rightarrow> f v)"

text \<open>The values a report can hold. A Python \<^verbatim>\<open>dict\<close> keeps insertion order, so it is an
  association list; a \<^verbatim>\<open>float\<close> is the rational number it denotes.\<close>

datatype pyval =
    PNone
  | PBool bool
  | PInt int
  | PFloat rat
  | PStr string
  | PBytes "8 word list"
  | PList "pyval list"
  | PDict "(string \<times> pyval) list"

type_synonym pydict = "(string \<times> pyval) list"

text \<open>\<^verbatim>\<open>d[k] = v\<close>: an existing key keeps its place, a new key goes last.\<close>

definition setitem :: "pydict \<Rightarrow> string \<Rightarrow> pyval \<Rightarrow> pydict" where
  "setitem d k v = AList.update k v d"

definition getitem :: "pydict \<Rightarrow> string \<Rightarrow> pyval option" where
  "getitem d k = map_of d k"

text \<open>\<^verbatim>\<open>sep.join(xs)\<close>.\<close>

fun join :: "string \<Rightarrow> string list \<Rightarrow> string" where
  "join sep [] = []"
| "join sep [x] = x"
| "join sep (x # y # ys) = x @ sep @ join sep (y # ys)"

text \<open>\<^verbatim>\<open>s[i]\<close> on a string or list: a negative index counts from the end, an index out of
  range raises \<^verbatim>\<open>IndexError\<close>.\<close>

definition index :: "'a list \<Rightarrow> int \<Rightarrow> 'a res" where
  "index xs i =
     (if 0 \<le> i \<and> i < int (length xs) then Inr (xs ! nat i)
      else if i < 0 \<and> - int (length xs) \<le> i then Inr (xs ! nat (int (length xs) + i))
      else Inl (PyExc IndexError ''index out of range''))"

text \<open>\<^verbatim>\<open>range(0, n, step)\<close> for a positive step.\<close>

definition range_step :: "nat \<Rightarrow> nat \<Rightarrow> nat list" where
  "range_step n step = filter (\<lambda>i. i mod step = 0) [0..<n]"

text \<open>A character of a Python \<^verbatim>\<open>str\<close> is a code point; the model has the code points below
  256. \<^verbatim>\<open>str.isspace\<close> holds of these among them: tab to carriage return, the four
  separators \<^verbatim>\<open>0x1c\<close> to \<^verbatim>\<open>0x1f\<close>, the space, next line (\<^verbatim>\<open>0x85\<close>) and the no-break space
  (\<^verbatim>\<open>0xa0\<close>). \<^verbatim>\<open>s.strip()\<close> removes them at both ends.\<close>

definition is_space :: "char \<Rightarrow> bool" where
  "is_space c = (c \<in> set [CHR 0x09, CHR 0x0A, CHR 0x0B, CHR 0x0C, CHR 0x0D,
                            CHR 0x1C, CHR 0x1D, CHR 0x1E, CHR 0x1F, CHR 0x20,
                            CHR 0x85, CHR 0xA0])"

definition strip :: "string \<Rightarrow> string" where
  "strip s = rev (dropWhile is_space (rev (dropWhile is_space s)))"

text \<open>\<^verbatim>\<open>s.split(c)\<close> for a one-character separator: at least one piece, empty pieces kept.\<close>

fun split_on :: "char \<Rightarrow> string \<Rightarrow> string list" where
  "split_on c [] = [[]]"
| "split_on c (x # xs) =
     (if x = c then [] # split_on c xs
      else (case split_on c xs of [] \<Rightarrow> [[x]] | w # ws \<Rightarrow> (x # w) # ws))"

text \<open>\<^verbatim>\<open>s.split(c, 1)\<close>: split at the first separator only.\<close>

fun split_once :: "char \<Rightarrow> string \<Rightarrow> string list" where
  "split_once c [] = [[]]"
| "split_once c (x # xs) =
     (if x = c then [[], xs]
      else (case split_once c xs of [] \<Rightarrow> [[x]] | w # ws \<Rightarrow> (x # w) # ws))"

text \<open>\<^verbatim>\<open>s.split()\<close>: the maximal runs of non-whitespace characters.\<close>

fun split_ws :: "string \<Rightarrow> string list" where
  "split_ws [] = []"
| "split_ws (x # xs) =
     (if is_space x then split_ws xs
      else (case xs of
              [] \<Rightarrow> [[x]]
            | y # ys \<Rightarrow>
                if is_space y then [x] # split_ws xs
                else (case split_ws xs of [] \<Rightarrow> [[x]] | w # ws \<Rightarrow> (x # w) # ws)))"

text \<open>\<^verbatim>\<open>sub in s\<close> on strings.\<close>

fun contains :: "string \<Rightarrow> string \<Rightarrow> bool" where
  "contains sub [] = (sub = [])"
| "contains sub (x # xs) = (take (length sub) (x # xs) = sub \<or> contains sub xs)"

text \<open>Decimal and lowercase hexadecimal digits of a natural number, \<^verbatim>\<open>str(n)\<close> of an
  integer, and \<^verbatim>\<open>'{:02x}'.format(x)\<close>: at least two characters, padded with zeros, the
  sign counted in the width.\<close>

definition digit_char :: "nat \<Rightarrow> char" where
  "digit_char d = ''0123456789abcdef'' ! d"

function str_nat :: "nat \<Rightarrow> string" where
  "str_nat n = (if n < 10 then [digit_char n] else str_nat (n div 10) @ [digit_char (n mod 10)])"
  by pat_completeness auto
termination
  by (relation "measure id") auto

declare str_nat.simps [simp del]

function hex_nat :: "nat \<Rightarrow> string" where
  "hex_nat n = (if n < 16 then [digit_char n] else hex_nat (n div 16) @ [digit_char (n mod 16)])"
  by pat_completeness auto
termination
  by (relation "measure id") auto

declare hex_nat.simps [simp del]

definition str_int :: "int \<Rightarrow> string" where
  "str_int i = (if i < 0 then ''-'' @ str_nat (nat (- i)) else str_nat (nat i))"

definition format_02x :: "int \<Rightarrow> string" where
  "format_02x x =
     (if x < 0 then ''-'' @ hex_nat (nat (- x))
      else (let h = hex_nat (nat x) in replicate (2 - length h) (CHR ''0'') @ h))"

section \<open>Floating point: \<^verbatim>\<open>x / (1024**3)\<close> and \<^verbatim>\<open>f"{y:.2f}"\<close>\<close>

text \<open>
  A finite \<^verbatim>\<open>float\<close> is the rational number it denotes. Python's \<^verbatim>\<open>int / int\<close> returns the
  double nearest to the exact quotient (ties to the even significand) and raises
  \<^verbatim>\<open>OverflowError\<close> when that is beyond the largest double. The source only divides by
  \<^verbatim>\<open>1024**3\<close> and \<^verbatim>\<open>1024**2\<close>, powers of two, so the rounding is that of the numerator to
  53 significant bits. \<^verbatim>\<open>f"{y:.2f}"\<close> prints the decimal with two fractional digits nearest
  to the exact value of \<open>y\<close>, ties to the even last digit.
\<close>

function bit_length :: "nat \<Rightarrow> nat" where
  "bit_length n = (if n = 0 then 0 else Suc (bit_length (n div 2)))"
  by pat_completeness auto
termination
  by (relation "measure id") auto

declare bit_length.simps [simp del]

definition round_53 :: "nat \<Rightarrow> nat" where
  "round_53 n =
     (let e = bit_length n - 53; q = n div 2 ^ e; r = n mod 2 ^ e
      in (if 2 ^ e < 2 * r \<or> (2 * r = 2 ^ e \<and> odd q) then q + 1 else q) * 2 ^ e)"

definition div_pow2 :: "int \<Rightarrow> nat \<Rightarrow> rat res" where
  "div_pow2 a s =
     (let m = round_53 (nat \<bar>a\<bar>)
      in if 2 ^ (1024 + s) \<le> m then Inl (PyExc OverflowError ''integer division result too large for a float'')
         else Inr ((if a < 0 then - 1 else 1) * (of_nat m / 2 ^ s)))"

definition round_half_even :: "rat \<Rightarrow> int" where
  "round_half_even x =
     (let f = \<lfloor>x\<rfloor>; d = x - of_int f
      in if d < 1 / 2 then f else if 1 / 2 < d then f + 1 else if even f then f else f + 1)"

definition format_2f :: "rat \<Rightarrow> string" where
  "format_2f y =
     (let c = nat (round_half_even (\<bar>y\<bar> * 100))
      in (if y < 0 then ''-'' else []) @ str_nat (c div 100) @ ''.''
           @ [digit_char (c mod 100 div 10), digit_char (c mod 10)])"

section \<open>Product key decoding (\<^verbatim>\<open>get_windows_product_key\<close>)\<close>

definition key_map :: string where
  "key_map = ''BCDFGHJKMPQRTVWXY2346789''"

text \<open>
  The inner loop \<^verbatim>\<open>for j in range(14, -1, -1)\<close>: one long division of the little-endian
  digit list \<open>product_id\<close> by 24. The first argument is the list of indices still to visit;
  \<^verbatim>\<open>product_id[j]\<close> raises \<^verbatim>\<open>IndexError\<close> out of range.
\<close>

fun divide_pass :: "nat list \<Rightarrow> int \<Rightarrow> int list \<Rightarrow> (int \<times> int list) res" where
  "divide_pass [] k product_id = Inr (k, product_id)"
| "divide_pass (j # js) k product_id =
     (if j < length product_id then
        (let k1 = (push_bit 8 k) OR (product_id ! j)
         in divide_pass js (k1 mod 24) (product_id[j := k1 div 24]))
      else Inl (PyExc IndexError ''list index out of range''))"

text \<open>The outer loop \<^verbatim>\<open>for i in range(24, -1, -1)\<close>: the first argument counts the passes
  left, \<open>key_chars\<close> collects one character per pass.\<close>

fun decode_loop :: "nat \<Rightarrow> int list \<Rightarrow> string \<Rightarrow> string res" where
  "decode_loop 0 product_id key_chars = Inr key_chars"
| "decode_loop (Suc n) product_id key_chars =
     (case divide_pass (rev [0..<15]) 0 product_id of
        Inl e \<Rightarrow> Inl e
      | Inr (k, product_id') \<Rightarrow>
          (case index key_map k of
             Inl e \<Rightarrow> Inl e
           | Inr c \<Rightarrow> decode_loop n product_id' (key_chars @ [c])))"

text \<open>\<^verbatim>\<open>'-'.join([key[i:i+5] for i in range(0, len(key), 5)])\<close>.\<close>

definition format_key :: "string \<Rightarrow> string" where
  "format_key key = join ''-'' (map (\<lambda>i. take 5 (drop i key)) (range_step (length key) 5))"

text \<open>Lines 79 to 93: decoding the list \<open>product_id = list(value[52:67])\<close>.\<close>

definition decode_product_id :: "int list \<Rightarrow> string res" where
  "decode_product_id product_id =
     (case decode_loop 25 product_id [] of
        Inl e \<Rightarrow> Inl e
      | Inr key_chars \<Rightarrow> Inr (format_key (rev key_chars)))"

text \<open>
  The value read from the registry. Only a binary value can be decoded: slicing and
  the loop raise \<^verbatim>\<open>TypeError\<close> or \<^verbatim>\<open>IndexError\<close> on a string, a number, a list of
  strings or \<^verbatim>\<open>None\<close>, and the bare \<^verbatim>\<open>except\<close> of the function turns every exception,
  also that of a failed registry read, into \<^verbatim>\<open>None\<close>.
\<close>

definition product_key_of :: "pyval res \<Rightarrow> string option" where
  "product_key_of reg =
     (case reg of
        Inl e \<Rightarrow> None
      | Inr (PBytes v) \<Rightarrow>
          (case decode_product_id (map uint (take 15 (drop 52 v))) of
             Inl e \<Rightarrow> None
           | Inr key \<Rightarrow> Some key)
      | Inr _ \<Rightarrow> None)"

section \<open>The host\<close>

text \<open>
  The outcome of every external call of the script on one host, at the time of one run.
  A call the script repeats (\<^verbatim>\<open>socket.gethostname()\<close>, \<^verbatim>\<open>psutil.cpu_freq()\<close>,
  \<^verbatim>\<open>uuid.getnode()\<close>) has the same outcome each time. \<^verbatim>\<open>os.path.join\<close> and the \<^verbatim>\<open>str\<close> of
  a float are library functions the script relies on; they are parameters of the host.
\<close>

record cpufreq =
  freq_current :: rat
  freq_min :: rat
  freq_max :: rat

record svmem =
  vm_total :: int
  vm_available :: int
  vm_percent :: rat
  vm_used :: int

record sswap =
  sw_total :: int
  sw_used :: int
  sw_percent :: rat

record sdiskpart =
  device :: string
  mountpoint :: string
  fstype :: string

record sdiskusage =
  du_total :: int
  du_used :: int
  du_free :: int
  du_percent :: rat

record sdiskio =
  read_count :: int
  write_count :: int
  read_bytes :: int
  write_bytes :: int

record snicaddr =
  family_name :: string
  address :: string
  netmask :: "string option"

record snicstats =
  isup :: bool
  speed :: int

record snetio =
  bytes_sent :: int
  bytes_recv :: int
  packets_sent :: int
  packets_recv :: int

record proc_info =
  pid :: int
  name :: "string option"
  username :: "string option"
  memory_percent :: "rat option"
  cpu_percent :: "rat option"

record host =
  platform_system :: "string res"
  platform_node :: "string res"
  platform_release :: "string res"
  platform_version :: "string res"
  platform_machine :: "string res"
  platform_processor :: "string res"
  platform_platform :: "string res"
  platform_architecture :: "(string \<times> string) res"
  platform_win32_ver :: "(string \<times> string \<times> string \<times> string) res"
  socket_gethostname :: "string res"
  socket_gethostbyname :: "string \<Rightarrow> string res"
  uuid_getnode :: "int res"
  winreg_query_value :: "string \<Rightarrow> string \<Rightarrow> pyval res"
  winreg_enum_keys :: "string \<Rightarrow> (string res) list res"
  subprocess_run :: "string \<Rightarrow> (int \<times> string) res"
  os_environ_get :: "string \<Rightarrow> string option"
  os_path_join :: "string \<Rightarrow> string \<Rightarrow> string"
  os_path_exists :: "string \<Rightarrow> bool"
  str_float :: "rat \<Rightarrow> string"
  psutil_cpu_count_physical :: "int option res"
  psutil_cpu_count_logical :: "int option res"
  psutil_cpu_freq :: "cpufreq option res"
  psutil_cpu_percent :: "rat res"
  psutil_virtual_memory :: "svmem res"
  psutil_swap_memory :: "sswap res"
  psutil_disk_partitions :: "sdiskpart list res"
  psutil_disk_usage :: "string \<Rightarrow> sdiskusage res"
  psutil_disk_io_counters :: "sdiskio option res"
  psutil_net_if_addrs :: "(string \<times> snicaddr list) list res"
  psutil_net_if_stats :: "(string \<times> snicstats) list res"
  psutil_net_io_counters :: "(string \<times> snetio) list res"
  psutil_process_iter :: "(proc_info res) list res"

section \<open>Identity probe (\<^verbatim>\<open>get_system_info\<close>)\<close>

text \<open>\<^verbatim>\<open>':'.join(['{:02x}'.format((uuid.getnode() >> elements) & 0xff)
  for elements in range(0, 8*6, 8)][::-1])\<close>.\<close>

definition mac_address :: "int \<Rightarrow> string" where
  "mac_address node =
     join '':'' (rev (map (\<lambda>elements. format_02x ((drop_bit elements node) AND 0xff))
                         (range_step (8 * 6) 8)))"

text \<open>The function has no \<^verbatim>\<open>try\<close>: the dictionary display evaluates its entries in order,
  and the first call that raises ends the function with that exception.\<close>

definition get_system_info :: "host \<Rightarrow> pydict res" where
  "get_system_info h =
     bind_res (platform_system h) (\<lambda>v_system.
     bind_res (platform_node h) (\<lambda>v_node.
     bind_res (platform_release h) (\<lambda>v_release.
     bind_res (platform_version h) (\<lambda>v_version.
     bind_res (platform_machine h) (\<lambda>v_machine.
     bind_res (platform_processor h) (\<lambda>v_processor.
     bind_res (platform_platform h) (\<lambda>v_platform.
     bind_res (platform_architecture h) (\<lambda>v_architecture.
     bind_res (socket_gethostname h) (\<lambda>v_hostname.
     bind_res (socket_gethostname h) (\<lambda>v_hostname2.
     bind_res (socket_gethostbyname h v_hostname2) (\<lambda>v_ip.
     bind_res (uuid_getnode h) (\<lambda>v_node_id.
       Inr [(''System'', PStr v_system),
            (''Node Name'', PStr v_node),
            (''Release'', PStr v_release),
            (''Version'', PStr v_version),
            (''Machine'', PStr v_machine),
            (''Processor'', PStr v_processor),
            (''Platform'', PStr v_platform),
            (''Architecture'', PStr (fst v_architecture)),
            (''Hostname'', PStr v_hostname),
            (''IP Address'', PStr v_ip),
            (''MAC Address'', PStr (mac_address v_node_id))]))))))))))))"

section \<open>OS and licensing probe (\<^verbatim>\<open>get_windows_info\<close>)\<close>

definition backslash :: string where
  "backslash = [CHR 0x5C]"

definition current_version_path :: string where
  "current_version_path =
     ''SOFTWARE'' @ backslash @ ''Microsoft'' @ backslash @ ''Windows NT'' @ backslash
       @ ''CurrentVersion''"

definition get_windows_product_key :: "host \<Rightarrow> string option" where
  "get_windows_product_key h =
     product_key_of (winreg_query_value h current_version_path ''DigitalProductId'')"

definition get_windows_product_id :: "host \<Rightarrow> pyval" where
  "get_windows_product_id h =
     (case winreg_query_value h current_version_path ''ProductId'' of
        Inl e \<Rightarrow> PStr ''Not available''
      | Inr v \<Rightarrow> v)"

text \<open>The loop of \<^verbatim>\<open>get_last_update_time\<close> over the lines of the output.\<close>

fun scan_installed_on :: "string list \<Rightarrow> string option" where
  "scan_installed_on [] = None"
| "scan_installed_on (line # lines) =
     (if contains ''InstalledOn'' line \<and> 3 \<le> length (split_ws line)
      then Some (join '' '' (tl (split_ws line)))
      else scan_installed_on lines)"

definition last_update_cmd :: string where
  \<open>last_update_cmd = ''powershell "Get-WmiObject -Class Win32_QuickFixEngineering | Sort-Object InstalledOn -Descending | Select-Object -First 1"''\<close>

definition get_last_update_time :: "host \<Rightarrow> string" where
  "get_last_update_time h =
     (case subprocess_run h last_update_cmd of
        Inl e \<Rightarrow> ''Unknown''
      | Inr (returncode, stdout) \<Rightarrow>
          if returncode = 0 \<and> strip stdout \<noteq> [] then
            (case scan_installed_on (split_on (CHR 0x0A) stdout) of
               Some r \<Rightarrow> r
             | None \<Rightarrow> ''Unknown'')
          else ''Unknown'')"

definition install_date_cmd :: string where
  \<open>install_date_cmd = ''systeminfo | find "Original Install Date"''\<close>

definition get_windows_install_date :: "host \<Rightarrow> string" where
  "get_windows_install_date h =
     (case subprocess_run h install_date_cmd of
        Inl e \<Rightarrow> ''Unknown''
      | Inr (returncode, stdout) \<Rightarrow>
          if returncode = 0 then
            (case index (split_once (CHR '':'') stdout) 1 of
               Inl e \<Rightarrow> ''Unknown''
             | Inr rest \<Rightarrow> strip rest)
          else ''Unknown'')"

text \<open>\<^verbatim>\<open>"XXXXX-XXXXX-XXXXX-XXXXX-" + key[-5:] if key else "Not available"\<close>: the key is
  used when it is neither \<^verbatim>\<open>None\<close> nor empty; \<^verbatim>\<open>key[-5:]\<close> is the whole key when it has
  fewer than five characters.\<close>

definition masked_key_of :: "string option \<Rightarrow> string" where
  "masked_key_of key =
     (case key of
        None \<Rightarrow> ''Not available''
      | Some k \<Rightarrow>
          if k \<noteq> [] then ''XXXXX-XXXXX-XXXXX-XXXXX-'' @ drop (length k - 5) k
          else ''Not available'')"

definition get_windows_info :: "host \<Rightarrow> pydict" where
  "get_windows_info h =
     (case platform_win32_ver h of
        Inl e \<Rightarrow>
          [(''Error'', PStr (''Unable to retrieve Windows information: '' @ exc_str e))]
      | Inr (release, version, csd, ptype) \<Rightarrow>
          (let masked_key = masked_key_of (get_windows_product_key h);
               last_update = get_last_update_time h
           in [(''Windows Edition'', PStr release),
               (''Windows Version'', PStr version),
               (''Windows Build'', PStr csd),
               (''Product ID'', get_windows_product_id h),
               (''Product Key'', PStr masked_key),
               (''Last Update'', PStr last_update),
               (''Installation Date'', PStr (get_windows_install_date h))]))"

section \<open>Hardware probe (\<^verbatim>\<open>get_hardware_info\<close>)\<close>

text \<open>
  The first and the third block of the function are the same code up to the command and
  the two keys: run the command; on return code 0 take the second line of the stripped
  output, and when it has at least two words store the first word and the rest. Any
  exception of the block is swallowed (\<^verbatim>\<open>except: pass\<close>).
\<close>

definition query_two_fields :: "host \<Rightarrow> string \<Rightarrow> string \<Rightarrow> string \<Rightarrow> pydict \<Rightarrow> pydict" where
  "query_two_fields h cmd key1 key2 hardware_info =
     (case subprocess_run h cmd of
        Inl e \<Rightarrow> hardware_info
      | Inr (returncode, stdout) \<Rightarrow>
          if returncode = 0 then
            (let lines = split_on (CHR 0x0A) (strip stdout)
             in if 1 < length lines then
                  (let parts = split_ws (strip (lines ! 1))
                   in if 2 \<le> length parts then
                        setitem (setitem hardware_info key1 (PStr (hd parts)))
                          key2 (PStr (join '' '' (tl parts)))
                      else hardware_info)
                else hardware_info)
          else hardware_info)"

text \<open>The second block, and the CPU name of \<^verbatim>\<open>get_cpu_info\<close>: the second line, stripped.\<close>

definition query_one_field :: "host \<Rightarrow> string \<Rightarrow> string \<Rightarrow> pydict \<Rightarrow> pydict" where
  "query_one_field h cmd key1 info =
     (case subprocess_run h cmd of
        Inl e \<Rightarrow> info
      | Inr (returncode, stdout) \<Rightarrow>
          if returncode = 0 then
            (let lines = split_on (CHR 0x0A) (strip stdout)
             in if 1 < length lines then setitem info key1 (PStr (strip (lines ! 1)))
                else info)
          else info)"

definition computersystem_query :: "host \<Rightarrow> pydict \<Rightarrow> pydict" where
  "computersystem_query h =
     query_two_fields h ''wmic computersystem get model,manufacturer'' ''Manufacturer'' ''Model''"

definition bios_query :: "host \<Rightarrow> pydict \<Rightarrow> pydict" where
  "bios_query h = query_one_field h ''wmic bios get serialnumber'' ''Serial Number''"

definition baseboard_query :: "host \<Rightarrow> pydict \<Rightarrow> pydict" where
  "baseboard_query h =
     query_two_fields h ''wmic baseboard get product,manufacturer''
       ''Motherboard Manufacturer'' ''Motherboard Model''"

text \<open>Nothing outside the three inner \<^verbatim>\<open>try\<close> blocks can raise, so the outer
  \<^verbatim>\<open>except Exception\<close> has no branch here.\<close>

definition get_hardware_info :: "host \<Rightarrow> pydict" where
  "get_hardware_info h =
     (let hardware_info = baseboard_query h (bios_query h (computersystem_query h []))
      in if hardware_info = [] then
           [(''Error'', PStr ''Unable to retrieve hardware information'')]
         else hardware_info)"

section \<open>Office probe (\<^verbatim>\<open>get_office_info\<close>)\<close>

definition office_versions :: "(string \<times> string) list" where
  "office_versions =
     [(''16.0'', ''Office 2016/2019/2021/365''),
      (''15.0'', ''Office 2013''),
      (''14.0'', ''Office 2010''),
      (''12.0'', ''Office 2007''),
      (''11.0'', ''Office 2003'')]"

definition office_paths :: "string list" where
  "office_paths =
     [''SOFTWARE'' @ backslash @ ''Microsoft'' @ backslash @ ''Office'',
      ''SOFTWARE'' @ backslash @ ''Wow6432Node'' @ backslash @ ''Microsoft'' @ backslash
         @ ''Office'']"

definition install_root :: "string \<Rightarrow> string \<Rightarrow> string \<Rightarrow> string" where
  "install_root office_path subkey_name app =
     office_path @ backslash @ subkey_name @ backslash @ app @ backslash @ ''InstallRoot''"

text \<open>The body of \<^verbatim>\<open>if subkey_name in office_versions\<close>, up to the \<^verbatim>\<open>break\<close>.\<close>

definition record_version :: "host \<Rightarrow> string \<Rightarrow> string \<Rightarrow> string \<Rightarrow> pydict \<Rightarrow> pydict" where
  "record_version h office_path subkey_name label office_info =
     (let info1 = setitem office_info ''Version'' (PStr label);
          info2 =
            (case winreg_query_value h (install_root office_path subkey_name ''Common'') ''Path'' of
               Inl e \<Rightarrow> info1
             | Inr path \<Rightarrow> setitem info1 ''Install Path'' path)
      in case winreg_query_value h (install_root office_path subkey_name ''Word'') ''Path'' of
           Inr path \<Rightarrow> setitem info2 ''Detected Via'' (PStr ''Word'')
         | Inl e \<Rightarrow>
             (case winreg_query_value h (install_root office_path subkey_name ''Excel'') ''Path'' of
                Inr path \<Rightarrow> setitem info2 ''Detected Via'' (PStr ''Excel'')
              | Inl e' \<Rightarrow> setitem info2 ''Detected Via'' (PStr ''Registry'')))"

text \<open>\<^verbatim>\<open>for i in range(winreg.QueryInfoKey(key)[0])\<close>: the list holds the outcome of
  \<^verbatim>\<open>winreg.EnumKey(key, i)\<close> for each \<open>i\<close>. The loop ends at the first known version
  (\<^verbatim>\<open>break\<close>) or at the first exception, which leaves \<open>office_info\<close> as it was.\<close>

fun scan_subkeys :: "host \<Rightarrow> string \<Rightarrow> (string res) list \<Rightarrow> pydict \<Rightarrow> pydict res" where
  "scan_subkeys h office_path [] office_info = Inr office_info"
| "scan_subkeys h office_path (r # rs) office_info =
     (case r of
        Inl e \<Rightarrow> Inl e
      | Inr subkey_name \<Rightarrow>
          (case map_of office_versions subkey_name of
             None \<Rightarrow> scan_subkeys h office_path rs office_info
           | Some label \<Rightarrow> Inr (record_version h office_path subkey_name label office_info)))"

text \<open>\<^verbatim>\<open>for office_path in office_paths\<close>: an exception anywhere in the body is
  \<^verbatim>\<open>except: continue\<close>. The \<^verbatim>\<open>break\<close> above leaves the inner loop only.\<close>

fun scan_paths :: "host \<Rightarrow> string list \<Rightarrow> pydict \<Rightarrow> pydict" where
  "scan_paths h [] office_info = office_info"
| "scan_paths h (office_path # rest) office_info =
     (case bind_res (winreg_enum_keys h office_path)
             (\<lambda>keys. scan_subkeys h office_path keys office_info) of
        Inl e \<Rightarrow> scan_paths h rest office_info
      | Inr office_info' \<Rightarrow> scan_paths h rest office_info')"

definition common_paths :: "host \<Rightarrow> string list" where
  "common_paths h =
     [os_path_join h
        (case os_environ_get h ''ProgramFiles'' of
           None \<Rightarrow> ''C:'' @ backslash @ ''Program Files'' | Some v \<Rightarrow> v)
        ''Microsoft Office'',
      os_path_join h
        (case os_environ_get h ''ProgramFiles(x86)'' of
           None \<Rightarrow> ''C:'' @ backslash @ ''Program Files (x86)'' | Some v \<Rightarrow> v)
        ''Microsoft Office'']"

fun scan_common_paths :: "host \<Rightarrow> string list \<Rightarrow> pydict \<Rightarrow> pydict" where
  "scan_common_paths h [] office_info = office_info"
| "scan_common_paths h (path # rest) office_info =
     (if os_path_exists h path then
        setitem (setitem office_info ''Version'' (PStr ''Office (detected via file system)''))
          ''Install Path'' (PStr path)
      else scan_common_paths h rest office_info)"

text \<open>No call outside the inner \<^verbatim>\<open>try\<close> blocks raises, so the outer \<^verbatim>\<open>except Exception\<close>
  has no branch here.\<close>

definition get_office_info :: "host \<Rightarrow> pydict" where
  "get_office_info h =
     (let info1 = scan_paths h office_paths [];
          info2 = (if info1 = [] then scan_common_paths h (common_paths h) info1 else info1)
      in if info2 = [] then setitem info2 ''Status'' (PStr ''Not detected'') else info2)"

section \<open>CPU, memory, disk and network probes\<close>

text \<open>\<^verbatim>\<open>f"{n / (1024**3):.2f} GB"\<close> and \<^verbatim>\<open>f"{n / (1024**2):.2f} MB"\<close>.\<close>

definition format_gb :: "int \<Rightarrow> string res" where
  "format_gb n = bind_res (div_pow2 n 30) (\<lambda>y. Inr (format_2f y @ '' GB''))"

definition format_mb :: "int \<Rightarrow> string res" where
  "format_mb n = bind_res (div_pow2 n 20) (\<lambda>y. Inr (format_2f y @ '' MB''))"

definition opt_int :: "int option \<Rightarrow> pyval" where
  "opt_int v = (case v of None \<Rightarrow> PNone | Some i \<Rightarrow> PInt i)"

definition opt_str :: "string option \<Rightarrow> pyval" where
  "opt_str v = (case v of None \<Rightarrow> PNone | Some s \<Rightarrow> PStr s)"

definition opt_float :: "rat option \<Rightarrow> pyval" where
  "opt_float v = (case v of None \<Rightarrow> PNone | Some x \<Rightarrow> PFloat x)"

definition cpu_fields :: "host \<Rightarrow> pydict res" where
  "cpu_fields h =
     bind_res (psutil_cpu_count_physical h) (\<lambda>physical.
     bind_res (psutil_cpu_count_logical h) (\<lambda>logical.
     bind_res (psutil_cpu_freq h) (\<lambda>freq.
     bind_res (psutil_cpu_percent h) (\<lambda>usage.
       Inr [(''Physical Cores'', opt_int physical),
            (''Total Cores'', opt_int logical),
            (''Max Frequency'',
               PStr (case freq of None \<Rightarrow> ''N/A'' | Some f \<Rightarrow> format_2f (freq_max f) @ '' MHz'')),
            (''Current Frequency'',
               PStr (case freq of None \<Rightarrow> ''N/A''
                     | Some f \<Rightarrow> format_2f (freq_current f) @ '' MHz'')),
            (''CPU Usage'', PStr (str_float h usage @ ''%''))]))))"

definition get_cpu_info :: "host \<Rightarrow> pydict" where
  "get_cpu_info h =
     (case cpu_fields h of
        Inl e \<Rightarrow> [(''Error'', PStr ''Unable to retrieve CPU information'')]
      | Inr cpu_info \<Rightarrow> query_one_field h ''wmic cpu get name'' ''Name'' cpu_info)"

definition memory_fields :: "host \<Rightarrow> pydict res" where
  "memory_fields h =
     bind_res (psutil_virtual_memory h) (\<lambda>virtual_memory.
     bind_res (psutil_swap_memory h) (\<lambda>swap_memory.
     bind_res (format_gb (vm_total virtual_memory)) (\<lambda>total_ram.
     bind_res (format_gb (vm_available virtual_memory)) (\<lambda>available_ram.
     bind_res (format_gb (vm_used virtual_memory)) (\<lambda>used_ram.
     bind_res (format_gb (sw_total swap_memory)) (\<lambda>total_swap.
     bind_res (format_gb (sw_used swap_memory)) (\<lambda>used_swap.
       Inr [(''Total RAM'', PStr total_ram),
            (''Available RAM'', PStr available_ram),
            (''Used RAM'', PStr used_ram),
            (''RAM Usage'', PStr (str_float h (vm_percent virtual_memory) @ ''%'')),
            (''Total Swap'', PStr total_swap),
            (''Used Swap'', PStr used_swap),
            (''Swap Usage'', PStr (str_float h (sw_percent swap_memory) @ ''%''))])))))))"

definition get_memory_info :: "host \<Rightarrow> pydict" where
  "get_memory_info h =
     (case memory_fields h of
        Inl e \<Rightarrow> [(''Error'', PStr ''Unable to retrieve memory information'')]
      | Inr memory_info \<Rightarrow> memory_info)"

text \<open>The body of the inner \<^verbatim>\<open>try\<close> of the partition loop.\<close>

definition partition_fields :: "host \<Rightarrow> sdiskpart \<Rightarrow> pydict res" where
  "partition_fields h part =
     bind_res (psutil_disk_usage h (mountpoint part)) (\<lambda>usage.
     bind_res (format_gb (du_total usage)) (\<lambda>total.
     bind_res (format_gb (du_used usage)) (\<lambda>used.
     bind_res (format_gb (du_free usage)) (\<lambda>free.
       Inr [(''File System'', PStr (fstype part)),
            (''Total Size'', PStr total),
            (''Used'', PStr used),
            (''Free'', PStr free),
            (''Usage'', PStr (str_float h (du_percent usage) @ ''%'')),
            (''Mount Point'', PStr (mountpoint part))]))))"

fun partition_loop :: "host \<Rightarrow> sdiskpart list \<Rightarrow> pydict \<Rightarrow> pydict" where
  "partition_loop h [] disk_info = disk_info"
| "partition_loop h (part # rest) disk_info =
     (case partition_fields h part of
        Inl e \<Rightarrow> partition_loop h rest disk_info
      | Inr entry \<Rightarrow> partition_loop h rest (setitem disk_info (device part) (PDict entry)))"

definition disk_fields :: "host \<Rightarrow> pydict res" where
  "disk_fields h =
     bind_res (psutil_disk_partitions h) (\<lambda>partitions.
     (let disk_info = partition_loop h partitions []
      in bind_res (psutil_disk_io_counters h) (\<lambda>disk_io.
           case disk_io of
             None \<Rightarrow> Inr disk_info
           | Some io \<Rightarrow>
               bind_res (format_mb (read_bytes io)) (\<lambda>rb.
               bind_res (format_mb (write_bytes io)) (\<lambda>wb.
                 Inr (setitem disk_info ''IO Statistics''
                        (PDict [(''Read Count'', PInt (read_count io)),
                                (''Write Count'', PInt (write_count io)),
                                (''Read Bytes'', PStr rb),
                                (''Write Bytes'', PStr wb)])))))))"

definition get_disk_info :: "host \<Rightarrow> pydict" where
  "get_disk_info h =
     (case disk_fields h of
        Inl e \<Rightarrow> [(''Error'', PStr ''Unable to retrieve disk information'')]
      | Inr disk_info \<Rightarrow> disk_info)"

definition address_line :: "snicaddr \<Rightarrow> string" where
  "address_line addr =
     family_name addr @ '': '' @ address addr @ '' (Netmask: ''
       @ (case netmask addr of None \<Rightarrow> ''None'' | Some m \<Rightarrow> m) @ '')''"

definition interface_fields :: "(string \<times> snicstats) list \<Rightarrow> string \<Rightarrow> snicaddr list \<Rightarrow> pydict" where
  "interface_fields stats interface addrs =
     [(''Addresses'', PList (map (\<lambda>addr. PStr (address_line addr)) addrs)),
      (''Is Up'', (case map_of stats interface of None \<Rightarrow> PStr ''N/A'' | Some st \<Rightarrow> PBool (isup st))),
      (''Speed'',
         PStr (case map_of stats interface of
                 None \<Rightarrow> ''N/A''
               | Some st \<Rightarrow> if speed st \<noteq> 0 then str_int (speed st) @ '' Mbps'' else ''N/A''))]"

fun interface_loop :: "(string \<times> snicstats) list \<Rightarrow> (string \<times> snicaddr list) list \<Rightarrow> pydict \<Rightarrow> pydict" where
  "interface_loop stats [] network_info = network_info"
| "interface_loop stats ((interface, addrs) # rest) network_info =
     interface_loop stats rest
       (setitem network_info interface (PDict (interface_fields stats interface addrs)))"

fun io_loop :: "(string \<times> snetio) list \<Rightarrow> pydict \<Rightarrow> pydict res" where
  "io_loop [] io_statistics = Inr io_statistics"
| "io_loop ((interface, io) # rest) io_statistics =
     bind_res (format_mb (bytes_sent io)) (\<lambda>sent.
     bind_res (format_mb (bytes_recv io)) (\<lambda>received.
       io_loop rest
         (setitem io_statistics interface
            (PDict [(''Bytes Sent'', PStr sent),
                    (''Bytes Received'', PStr received),
                    (''Packets Sent'', PInt (packets_sent io)),
                    (''Packets Received'', PInt (packets_recv io))]))))"

definition network_fields :: "host \<Rightarrow> pydict res" where
  "network_fields h =
     bind_res (psutil_net_if_addrs h) (\<lambda>addresses.
     bind_res (psutil_net_if_stats h) (\<lambda>stats.
     bind_res (psutil_net_io_counters h) (\<lambda>io_counters.
     (let network_info = interface_loop stats addresses []
      in if io_counters \<noteq> [] then
           bind_res (io_loop io_counters []) (\<lambda>io_statistics.
             Inr (setitem network_info ''IO Statistics'' (PDict io_statistics)))
         else Inr network_info))))"

definition get_network_info :: "host \<Rightarrow> pydict" where
  "get_network_info h =
     (case network_fields h of
        Inl e \<Rightarrow> [(''Error'', PStr ''Unable to retrieve network information'')]
      | Inr network_info \<Rightarrow> network_info)"

section \<open>Process snapshot (\<^verbatim>\<open>get_running_processes\<close>)\<close>

text \<open>
  psutil's side of the enumeration, after its documentation. \<^verbatim>\<open>process_iter(attrs)\<close> calls
  \<^verbatim>\<open>Process.as_dict(attrs)\<close> on every process and stores the result as \<^verbatim>\<open>proc.info\<close> before it
  yields the process. \<^verbatim>\<open>as_dict\<close> reads each attribute: a read that raises \<^verbatim>\<open>AccessDenied\<close>
  or \<^verbatim>\<open>ZombieProcess\<close> is stored as \<^verbatim>\<open>None\<close>; \<^verbatim>\<open>NoSuchProcess\<close> leaves \<^verbatim>\<open>as_dict\<close>, and
  \<^verbatim>\<open>process_iter\<close> then skips the process. Reading \<^verbatim>\<open>proc.info\<close> of a yielded process is a
  plain attribute read.
\<close>

datatype 'a attr_read = Value 'a | Denied | Zombie | Gone

record os_process =
  os_pid :: int
  os_name :: "string attr_read"
  os_username :: "string attr_read"
  os_memory_percent :: "rat attr_read"
  os_cpu_percent :: "rat attr_read"

fun ad_value :: "'a attr_read \<Rightarrow> 'a option" where
  "ad_value (Value v) = Some v"
| "ad_value Denied = None"
| "ad_value Zombie = None"
| "ad_value Gone = None"

fun is_gone :: "'a attr_read \<Rightarrow> bool" where
  "is_gone Gone = True"
| "is_gone (Value v) = False"
| "is_gone Denied = False"
| "is_gone Zombie = False"

definition as_dict :: "os_process \<Rightarrow> proc_info option" where
  "as_dict p =
     (if is_gone (os_name p) \<or> is_gone (os_username p) \<or> is_gone (os_memory_percent p)
         \<or> is_gone (os_cpu_percent p)
      then None
      else Some \<lparr>pid = os_pid p, name = ad_value (os_name p),
                 username = ad_value (os_username p),
                 memory_percent = ad_value (os_memory_percent p),
                 cpu_percent = ad_value (os_cpu_percent p)\<rparr>)"

fun process_iter_yield :: "os_process list \<Rightarrow> (proc_info res) list" where
  "process_iter_yield [] = []"
| "process_iter_yield (p # ps) =
     (case as_dict p of
        None \<Rightarrow> process_iter_yield ps
      | Some info \<Rightarrow> Inr info # process_iter_yield ps)"

text \<open>
  The loop of the source. The host's \<^verbatim>\<open>psutil.process_iter\<close> either raises or yields
  processes, each with the outcome of reading its \<^verbatim>\<open>proc.info\<close>; the list type keeps a
  raising read as a branch, since the source has a handler for it. The inner \<^verbatim>\<open>except\<close>
  drops the three psutil exceptions; any other exception leaves the loop for the outer
  \<^verbatim>\<open>except\<close>.
\<close>

fun enumerate_processes :: "(proc_info res) list \<Rightarrow> proc_info list \<Rightarrow> proc_info list res" where
  "enumerate_processes [] processes = Inr processes"
| "enumerate_processes (r # rs) processes =
     (case r of
        Inr info \<Rightarrow> enumerate_processes rs (processes @ [info])
      | Inl e \<Rightarrow>
          if exc_class e \<in> set [NoSuchProcess, AccessDenied, ZombieProcess]
          then enumerate_processes rs processes
          else Inl e)"

text \<open>\<^verbatim>\<open>x['cpu_percent'] or 0\<close>.\<close>

definition cpu_key :: "proc_info \<Rightarrow> rat" where
  "cpu_key x = (case cpu_percent x of None \<Rightarrow> 0 | Some c \<Rightarrow> if c \<noteq> 0 then c else 0)"

text \<open>\<^verbatim>\<open>list.sort(key=..., reverse=True)\<close>: CPython reverses the list, sorts it
  ascending with its stable sort, and reverses the result.\<close>

definition sort_reverse :: "('a \<Rightarrow> rat) \<Rightarrow> 'a list \<Rightarrow> 'a list" where
  "sort_reverse key xs = rev (sort_key key (rev xs))"

definition info_dict :: "proc_info \<Rightarrow> pyval" where
  "info_dict x =
     PDict [(''pid'', PInt (pid x)),
            (''name'', opt_str (name x)),
            (''username'', opt_str (username x)),
            (''memory_percent'', opt_float (memory_percent x)),
            (''cpu_percent'', opt_float (cpu_percent x))]"

definition top_processes :: "host \<Rightarrow> nat \<Rightarrow> proc_info list res" where
  "top_processes h limit =
     bind_res (psutil_process_iter h) (\<lambda>procs.
     bind_res (enumerate_processes procs []) (\<lambda>processes.
       Inr (take limit (sort_reverse cpu_key processes))))"

definition get_running_processes :: "host \<Rightarrow> pyval" where
  "get_running_processes h =
     (case top_processes h 20 of
        Inl e \<Rightarrow> PList [PDict [(''Error'', PStr ''Unable to retrieve process information'')]]
      | Inr processes \<Rightarrow> PList (map info_dict processes))"

section \<open>The aggregate report (\<^verbatim>\<open>system_data\<close> in \<^verbatim>\<open>main\<close>)\<close>

definition system_data :: "host \<Rightarrow> pydict res" where
  "system_data h =
     bind_res (get_system_info h) (\<lambda>system_info.
       Inr [(''system_info'', PDict system_info),
            (''hardware_info'', PDict (get_hardware_info h)),
            (''windows_info'', PDict (get_windows_info h)),
            (''office_info'', PDict (get_office_info h)),
            (''cpu_info'', PDict (get_cpu_info h)),
            (''memory_info'', PDict (get_memory_info h)),
            (''disk_info'', PDict (get_disk_info h)),
            (''network_info'', PDict (get_network_info h)),
            (''processes'', get_running_processes h)])"

section \<open>Reference definitions\<close>

text \<open>
  The decoding procedure as the specification words it: the window is a base-256
  number (the byte at offset \<open>j\<close> of the window weighs \<open>256 ^ j\<close>), divided by 24 twenty-five
  times; the remainders are mapped through the alphabet, the characters reversed and
  grouped by five.
\<close>

definition window_number :: "8 word list \<Rightarrow> nat" where
  "window_number w = foldr (\<lambda>b n. unat b + 256 * n) w 0"

fun remainders :: "nat \<Rightarrow> nat \<Rightarrow> nat list" where
  "remainders 0 n = []"
| "remainders (Suc c) n = (n mod 24) # remainders c (n div 24)"

function segments :: "string \<Rightarrow> string list" where
  "segments s = (if length s \<le> 5 then [s] else take 5 s # segments (drop 5 s))"
  by pat_completeness auto
termination
  by (relation "measure length") auto

declare segments.simps [simp del]

definition reference_decode :: "8 word list \<Rightarrow> string" where
  "reference_decode w =
     join ''-'' (segments (rev (map (\<lambda>r. key_map ! r) (remainders 25 (window_number w)))))"

text \<open>A group of key characters drawn from the alphabet.\<close>

definition in_alphabet :: "string \<Rightarrow> bool" where
  "in_alphabet g = list_all (\<lambda>c. c \<in> set key_map) g"

text \<open>
  The MAC address as the specification words it: the six octets of the node identifier,
  most significant first, each as two lowercase hexadecimal digits, joined by colons.
\<close>

definition reference_octet :: "int \<Rightarrow> nat \<Rightarrow> string" where
  "reference_octet node i =
     (let b = nat ((node div 256 ^ i) mod 256) in [digit_char (b div 16), digit_char (b mod 16)])"

definition reference_mac :: "int \<Rightarrow> string" where
  "reference_mac node = join '':'' (map (reference_octet node) [5, 4, 3, 2, 1, 0])"

text \<open>The value of a little-endian digit list, and digit lists of bytes.\<close>

definition le_val :: "int list \<Rightarrow> int" where
  "le_val ds = foldr (\<lambda>d n. d + 256 * n) ds 0"

definition is_bytes :: "int list \<Rightarrow> bool" where
  "is_bytes ds = list_all (\<lambda>d. 0 \<le> d \<and> d < 256) ds"

text \<open>The shape of an entry of the report: a dictionary.\<close>

fun is_dict :: "pyval \<Rightarrow> bool" where
  "is_dict (PDict d) = True"
| "is_dict v = False"

text \<open>
  The process snapshot as the specification words it: an enumeration whose failures are
  only the three exceptions the loop drops, the records of the processes that raised
  nothing, and the CPU reading with an unavailable reading counted as zero.
\<close>

fun enumerable :: "proc_info res \<Rightarrow> bool" where
  "enumerable (Inr x) = True"
| "enumerable (Inl e) = (exc_class e \<in> set [NoSuchProcess, AccessDenied, ZombieProcess])"

fun reported :: "(proc_info res) list \<Rightarrow> proc_info list" where
  "reported [] = []"
| "reported (Inr x # rs) = x # reported rs"
| "reported (Inl e # rs) = reported rs"

definition reading_or_zero :: "proc_info \<Rightarrow> rat" where
  "reading_or_zero x = (case cpu_percent x of None \<Rightarrow> 0 | Some c \<Rightarrow> c)"

text \<open>The first known version token enumerated under a registry path: the enumeration
  stops at the first exception.\<close>

fun first_known :: "(string res) list \<Rightarrow> string option" where
  "first_known [] = None"
| "first_known (Inl e # rs) = None"
| "first_known (Inr subkey_name # rs) =
     (if map_of office_versions subkey_name \<noteq> None then Some subkey_name else first_known rs)"

definition path_match :: "host \<Rightarrow> string \<Rightarrow> string option" where
  "path_match h office_path =
     (case winreg_enum_keys h office_path of Inl e \<Rightarrow> None | Inr keys \<Rightarrow> first_known keys)"

text \<open>The known version found when exactly one of the two office registry paths has one,
  and the store in which neither has one.\<close>

definition registry_match :: "host \<Rightarrow> (string \<times> string) option" where
  "registry_match h =
     (case path_match h (office_paths ! 0) of
        Some k \<Rightarrow>
          (case path_match h (office_paths ! 1) of
             None \<Rightarrow> Some (office_paths ! 0, k)
           | Some k' \<Rightarrow> None)
      | None \<Rightarrow>
          (case path_match h (office_paths ! 1) of
             None \<Rightarrow> None
           | Some k \<Rightarrow> Some (office_paths ! 1, k)))"

definition no_known_version :: "host \<Rightarrow> bool" where
  "no_known_version h =
     (path_match h (office_paths ! 0) = None \<and> path_match h (office_paths ! 1) = None)"

text \<open>Decimal digits, the byte counts a host reports (unsigned 64-bit numbers), and the
  size string as a field value.\<close>

definition is_digit :: "char \<Rightarrow> bool" where
  "is_digit c = (c \<in> set ''0123456789'')"

definition byte_count :: "int \<Rightarrow> bool" where
  "byte_count n = (0 \<le> n \<and> n < 2 ^ 64)"

definition rendered_gb :: "int \<Rightarrow> pyval option" where
  "rendered_gb n = (case format_gb n of Inl e \<Rightarrow> None | Inr s \<Rightarrow> Some (PStr s))"

text \<open>
  The hardware inventory as the specification words it. A query yields the row that the
  inventory utility prints under its header line, when the utility ran and returned 0;
  the serial number is that row, and manufacturer with model are its first word and the
  rest, when it has at least two words. Each depends on the outcome of its own command
  only.
\<close>

definition inventory_row :: "host \<Rightarrow> string \<Rightarrow> string option" where
  "inventory_row h cmd =
     (case subprocess_run h cmd of
        Inl e \<Rightarrow> None
      | Inr (returncode, stdout) \<Rightarrow>
          if returncode \<noteq> 0 then None
          else (case split_on (CHR 0x0A) (strip stdout) of
                  header # row # further \<Rightarrow> Some (strip row)
                | _ \<Rightarrow> None))"

definition pair_fields :: "string \<Rightarrow> string \<Rightarrow> string option \<Rightarrow> pydict" where
  "pair_fields key1 key2 row =
     (case row of
        None \<Rightarrow> []
      | Some r \<Rightarrow>
          (case split_ws r of
             first_word # second_word # further \<Rightarrow>
               [(key1, PStr first_word), (key2, PStr (join '' '' (second_word # further)))]
           | _ \<Rightarrow> []))"

definition enclosure_fields :: "host \<Rightarrow> pydict" where
  "enclosure_fields h =
     pair_fields ''Manufacturer'' ''Model''
       (inventory_row h ''wmic computersystem get model,manufacturer'')"

definition serial_fields :: "host \<Rightarrow> pydict" where
  "serial_fields h =
     (case inventory_row h ''wmic bios get serialnumber'' of
        None \<Rightarrow> []
      | Some r \<Rightarrow> [(''Serial Number'', PStr r)])"

definition motherboard_fields :: "host \<Rightarrow> pydict" where
  "motherboard_fields h =
     pair_fields ''Motherboard Manufacturer'' ''Motherboard Model''
       (inventory_row h ''wmic baseboard get product,manufacturer'')"

section \<open>Sample hosts\<close>

definition sample_window :: "8 word list" where
  "sample_window = [236, 12, 0, 0, 0, 0, 168, 112, 71, 194, 162, 178, 118, 108, 3]"

definition sample_blob :: "8 word list" where
  "sample_blob = replicate 52 0 @ sample_window @ replicate 97 0"

text \<open>Five processes of the operating system: one whose user name and CPU reading are
  denied, one that vanishes during the enumeration, one zombie.\<close>

definition sample_os_processes :: "os_process list" where
  "sample_os_processes =
     [\<lparr>os_pid = 4, os_name = Value ''System'', os_username = Denied,
        os_memory_percent = Value (1 / 10), os_cpu_percent = Denied\<rparr>,
      \<lparr>os_pid = 812, os_name = Value ''svchost.exe'', os_username = Value ''SYSTEM'',
        os_memory_percent = Value (1 / 2), os_cpu_percent = Value (3 / 2)\<rparr>,
      \<lparr>os_pid = 900, os_name = Gone, os_username = Gone,
        os_memory_percent = Gone, os_cpu_percent = Gone\<rparr>,
      \<lparr>os_pid = 996, os_name = Value ''defunct'', os_username = Zombie,
        os_memory_percent = Zombie, os_cpu_percent = Zombie\<rparr>,
      \<lparr>os_pid = 1200, os_name = Value ''explorer.exe'', os_username = Value ''user'',
        os_memory_percent = Value 2, os_cpu_percent = Value 0\<rparr>,
      \<lparr>os_pid = 1300, os_name = Value ''python.exe'', os_username = Value ''user'',
        os_memory_percent = Value 1, os_cpu_percent = Value (3 / 2)\<rparr>]"

definition sample_processes :: "(proc_info res) list" where
  "sample_processes = process_iter_yield sample_os_processes"

definition sample_partition :: sdiskpart where
  "sample_partition =
     \<lparr>device = ''C:'' @ backslash, mountpoint = ''C:'' @ backslash, fstype = ''NTFS''\<rparr>"

definition sample_vm :: svmem where
  "sample_vm =
     \<lparr>vm_total = 1073741824, vm_available = 134217728, vm_percent = 0, vm_used = 402653184\<rparr>"

definition sample_swap :: sswap where
  "sample_swap = \<lparr>sw_total = 0, sw_used = 0, sw_percent = 0\<rparr>"

definition sample_usage :: sdiskusage where
  "sample_usage =
     \<lparr>du_total = 1073741824, du_used = 134217728, du_free = 939524096, du_percent = 0\<rparr>"

definition sample_host :: host where
  "sample_host =
     \<lparr>platform_system = Inr ''Windows'',
      platform_node = Inr ''DESKTOP-01'',
      platform_release = Inr ''10'',
      platform_version = Inr ''10.0.19045'',
      platform_machine = Inr ''AMD64'',
      platform_processor = Inr ''Intel64 Family 6'',
      platform_platform = Inr ''Windows-10-10.0.19045-SP0'',
      platform_architecture = Inr (''64bit'', ''WindowsPE''),
      platform_win32_ver = Inr (''10'', ''10.0.19045'', ''SP0'', ''Multiprocessor Free''),
      socket_gethostname = Inr ''DESKTOP-01'',
      socket_gethostbyname = (\<lambda>n. Inr ''192.168.1.10''),
      uuid_getnode = Inr 0x001A2B3C4D5E,
      winreg_query_value =
        (\<lambda>p n. if p = current_version_path \<and> n = ''DigitalProductId'' then Inr (PBytes sample_blob)
               else if p = current_version_path \<and> n = ''ProductId''
                 then Inr (PStr ''00330-80000-00000-AA123'')
               else Inl (PyExc FileNotFoundError ''The system cannot find the file specified'')),
      winreg_enum_keys =
        (\<lambda>p. if p = hd office_paths then Inr [Inr ''Common'', Inr ''15.0'', Inr ''16.0'']
             else Inl (PyExc FileNotFoundError ''The system cannot find the file specified'')),
      subprocess_run =
        (\<lambda>cmd. if cmd = ''wmic bios get serialnumber''
               then Inr (0, ''SerialNumber'' @ [CHR 0x0A] @ ''PF2ABC12  '' @ [CHR 0x0A])
               else Inr (1, [])),
      os_environ_get = (\<lambda>v. None),
      os_path_join = (\<lambda>a b. a @ backslash @ b),
      os_path_exists = (\<lambda>p. False),
      str_float = (\<lambda>x. ''0.0''),
      psutil_cpu_count_physical = Inr (Some 4),
      psutil_cpu_count_logical = Inr (Some 8),
      psutil_cpu_freq = Inr None,
      psutil_cpu_percent = Inr 0,
      psutil_virtual_memory = Inr sample_vm,
      psutil_swap_memory = Inr sample_swap,
      psutil_disk_partitions = Inr [sample_partition],
      psutil_disk_usage = (\<lambda>m. Inr sample_usage),
      psutil_disk_io_counters = Inr None,
      psutil_net_if_addrs = Inr [],
      psutil_net_if_stats = Inr [],
      psutil_net_io_counters = Inr [],
      psutil_process_iter = Inr sample_processes\<rparr>"

text \<open>The same host with a name the resolver does not know.\<close>

definition unresolvable_host :: host where
  "unresolvable_host =
     sample_host\<lparr>socket_gethostbyname :=
       (\<lambda>n. Inl (PyExc GaiError ''[Errno 11001] getaddrinfo failed''))\<rparr>"

text \<open>The same host with a registry that refuses every read.\<close>

definition no_registry_host :: host where
  "no_registry_host =
     sample_host\<lparr>winreg_query_value :=
       (\<lambda>p n. Inl (PyExc PermissionError ''Access is denied''))\<rparr>"

definition no_process_host :: host where
  "no_process_host =
     sample_host\<lparr>psutil_process_iter := Inl (PyExc OSError ''enumeration failed'')\<rparr>"


definition wmic_host :: host where
  "wmic_host =
     sample_host\<lparr>subprocess_run :=
       (\<lambda>cmd. if cmd = ''wmic computersystem get model,manufacturer''
                then Inr (0, ''Manufacturer  Model'' @ [CHR 0x0A] @ ''LENOVO  ThinkPad T14''
                             @ [CHR 0x0A])
              else if cmd = ''wmic bios get serialnumber''
                then Inr (0, ''SerialNumber'' @ [CHR 0x0A] @ ''PF2ABC12  '' @ [CHR 0x0A])
              else if cmd = ''wmic baseboard get product,manufacturer''
                then Inr (0, ''Manufacturer  Product'' @ [CHR 0x0A] @ ''LENOVO  20W0004UUS''
                             @ [CHR 0x0A])
              else Inr (1, []))\<rparr>"

text \<open>A host whose BIOS query prints a no-break space under the header, and no other
  inventory.\<close>

definition nbsp_host :: host where
  "nbsp_host =
     sample_host\<lparr>subprocess_run :=
       (\<lambda>cmd. if cmd = ''wmic bios get serialnumber''
                then Inr (0, ''SerialNumber'' @ [CHR 0x0A] @ [CHR 0xA0] @ [CHR 0x0A])
              else Inl (PyExc FileNotFoundError ''wmic''))\<rparr>"

definition no_wmic_host :: host where
  "no_wmic_host =
     sample_host\<lparr>subprocess_run := (\<lambda>cmd. Inl (PyExc FileNotFoundError ''wmic''))\<rparr>"

definition office16_host :: host where
  "office16_host =
     sample_host\<lparr>winreg_enum_keys :=
       (\<lambda>p. if p = office_paths ! 0 then Inr [Inr ''Common'', Inr ''16.0'', Inr ''15.0'']
            else Inl (PyExc FileNotFoundError ''The system cannot find the file specified''))\<rparr>"

definition no_office_host :: host where
  "no_office_host =
     sample_host\<lparr>winreg_enum_keys :=
       (\<lambda>p. if p = office_paths ! 0 then Inr [Inr ''Common'']
            else Inl (PyExc FileNotFoundError ''The system cannot find the file specified''))\<rparr>"

section \<open>Product key decoding: one pass is a division by 24\<close>

lemma or_push_bit_byte:
  fixes k b :: int
  assumes "0 \<le> b" "b < 256"
  shows "(push_bit 8 k) OR b = k * 256 + b"
proof -
  have tb: "take_bit 8 b = b" using assms by (simp add: take_bit_int_eq_self)
  have "push_bit 8 k AND take_bit 8 b = 0"
    by (auto simp: bit_eq_iff bit_simps)
  then have "push_bit 8 k + take_bit 8 b = push_bit 8 k OR take_bit 8 b"
    by (rule disjunctive_add_eq_or)
  then show ?thesis using tb by (simp add: push_bit_eq_mult)
qed

lemma le_val_simps [simp]: "le_val [] = 0" "le_val (d # ds) = d + 256 * le_val ds"
  by (simp_all add: le_val_def)

lemma le_val_append: "le_val (xs @ ys) = le_val xs + 256 ^ length xs * le_val ys"
  by (induction xs) (simp_all add: algebra_simps)

lemma le_val_bounds: "is_bytes ds \<Longrightarrow> 0 \<le> le_val ds \<and> le_val ds < 256 ^ length ds"
proof (induction ds)
  case Nil then show ?case by simp
next
  case (Cons d ds)
  then have "0 \<le> d" "d < 256" "0 \<le> le_val ds" "le_val ds + 1 \<le> 256 ^ length ds"
    by (simp_all add: is_bytes_def)
  then have "d + 256 * le_val ds < 256 + 256 * (256 ^ length ds - 1)" 
    by (smt (verit))
  then show ?case using \<open>0 \<le> d\<close> \<open>0 \<le> le_val ds\<close> by (simp add: algebra_simps)
qed

lemma le_val_take_Suc:
  "m < length ds \<Longrightarrow> le_val (take (Suc m) ds) = le_val (take m ds) + 256 ^ m * ds ! m"
  by (simp add: take_Suc_conv_app_nth le_val_append)


lemma is_bytes_update: "is_bytes ds \<Longrightarrow> 0 \<le> d \<Longrightarrow> d < 256 \<Longrightarrow> is_bytes (ds[j := d])"
  unfolding is_bytes_def list_all_iff by (auto dest!: set_update_subset_insert [THEN subsetD])

lemma is_bytes_nth: "is_bytes ds \<Longrightarrow> j < length ds \<Longrightarrow> 0 \<le> ds ! j \<and> ds ! j < 256"
  unfolding is_bytes_def list_all_length by simp

lemma divide_pass_correct:
  assumes "m \<le> length ds" "is_bytes ds" "0 \<le> k" "k < 24"
  shows "\<exists>ds'. divide_pass (rev [0..<m]) k ds
            = Inr ((k * 256 ^ m + le_val (take m ds)) mod 24, ds')
          \<and> length ds' = length ds \<and> is_bytes ds'
          \<and> le_val (take m ds') = (k * 256 ^ m + le_val (take m ds)) div 24
          \<and> drop m ds' = drop m ds"
  using assms
proof (induction m arbitrary: k ds)
  case 0
  then show ?case by simp
next
  case (Suc m)
  define b where "b = ds ! m"
  define k1 where "k1 = k * 256 + b"
  define L where "L = le_val (take m ds)"
  have mlt: "m < length ds" using Suc.prems by simp
  have b: "0 \<le> b" "b < 256" using is_bytes_nth [OF Suc.prems(2) mlt] by (simp_all add: b_def)
  have k1: "(push_bit 8 k) OR (ds ! m) = k1"
    using or_push_bit_byte [OF b] by (simp add: k1_def b_def)
  have k1b: "0 \<le> k1" "k1 < 24 * 256" using b Suc.prems by (simp_all add: k1_def)
  have q: "0 \<le> k1 div 24" "k1 div 24 < 256" using k1b by simp_all
  have r: "0 \<le> k1 mod 24" "k1 mod 24 < 24" by simp_all
  let ?ds1 = "ds[m := k1 div 24]"
  have bytes1: "is_bytes ?ds1" using Suc.prems(2) q by (rule is_bytes_update)
  have len1: "m \<le> length ?ds1" using mlt by simp
  from Suc.IH [OF len1 bytes1 r] obtain ds' where
    res: "divide_pass (rev [0..<m]) (k1 mod 24) ?ds1
            = Inr ((k1 mod 24 * 256 ^ m + le_val (take m ?ds1)) mod 24, ds')"
    and len: "length ds' = length ?ds1" and bytes: "is_bytes ds'"
    and quot: "le_val (take m ds') = (k1 mod 24 * 256 ^ m + le_val (take m ?ds1)) div 24"
    and rest: "drop m ds' = drop m ?ds1"
    by blast
  have tk: "take m ?ds1 = take m ds" by simp
  have tot: "k * 256 ^ Suc m + le_val (take (Suc m) ds) = k1 * 256 ^ m + L"
    using le_val_take_Suc [OF mlt] by (simp add: k1_def b_def L_def algebra_simps)
  have split: "k1 * 256 ^ m + L = (k1 mod 24 * 256 ^ m + L) + 24 * (k1 div 24 * 256 ^ m)"
  proof -
    have gen: "(a + 24 * c) * p = a * p + 24 * (c * p)" for a c p :: int
      by (simp add: algebra_simps)
    have e: "k1 mod 24 + 24 * (k1 div 24) = k1" by simp
    have "k1 * 256 ^ m = k1 mod 24 * 256 ^ m + 24 * (k1 div 24 * 256 ^ m)"
      using gen [of "k1 mod 24" "k1 div 24" "256 ^ m"] by (simp only: e)
    then show ?thesis by simp
  qed
  have md: "(k1 * 256 ^ m + L) mod 24 = (k1 mod 24 * 256 ^ m + L) mod 24"
    by (subst split) simp
  have dv: "(k1 * 256 ^ m + L) div 24 = (k1 mod 24 * 256 ^ m + L) div 24 + k1 div 24 * 256 ^ m"
    by (subst split) simp
  have nth': "ds' ! m = k1 div 24"
  proof -
    have "ds' ! m = hd (drop m ds')" using mlt len by (simp add: hd_drop_conv_nth)
    also have "\<dots> = hd (drop m ?ds1)" by (simp add: rest)
    also have "\<dots> = ?ds1 ! m" using mlt by (simp add: hd_drop_conv_nth)
    finally show ?thesis using mlt by simp
  qed
  have mlt': "m < length ds'" using mlt len by simp
  have step: "divide_pass (rev [0..<Suc m]) k ds = divide_pass (rev [0..<m]) (k1 mod 24) ?ds1"
    using mlt k1 by (simp add: Let_def)
  have "divide_pass (rev [0..<Suc m]) k ds
          = Inr ((k * 256 ^ Suc m + le_val (take (Suc m) ds)) mod 24, ds')"
    using step res tk md tot by (simp add: L_def)
  moreover have "length ds' = length ds" using len by simp
  moreover have "le_val (take (Suc m) ds') = (k * 256 ^ Suc m + le_val (take (Suc m) ds)) div 24"
    using le_val_take_Suc [OF mlt'] quot tk nth' dv tot by (simp add: L_def algebra_simps)
  moreover have "drop (Suc m) ds' = drop (Suc m) ds"
  proof -
    have "drop (Suc m) ds' = drop 1 (drop m ds')" by simp
    also have "\<dots> = drop 1 (drop m ?ds1)" by (simp only: rest)
    also have "\<dots> = drop (Suc m) ds" by (simp add: drop_update_cancel)
    finally show ?thesis .
  qed
  ultimately show ?case using bytes by blast
qed


lemma le_val_uint: "le_val (map uint w) = int (window_number w)"
  by (induction w) (simp_all add: window_number_def)

lemma is_bytes_uint: "is_bytes (map uint (w :: 8 word list))"
proof -
  have "uint b < 256" for b :: "8 word" using uint_bounded [of b] by simp
  then show ?thesis by (simp add: is_bytes_def list_all_iff)
qed

lemma index_key_map: "0 \<le> k \<Longrightarrow> k < 24 \<Longrightarrow> index key_map k = Inr (key_map ! nat k)"
  by (simp add: index_def key_map_def)

lemma full_pass:
  assumes "length ds = 15" "is_bytes ds"
  shows "\<exists>ds'. divide_pass (rev [0..<15]) 0 ds = Inr (le_val ds mod 24, ds')
          \<and> length ds' = 15 \<and> is_bytes ds' \<and> le_val ds' = le_val ds div 24"
proof -
  have "15 \<le> length ds" using assms by simp
  from divide_pass_correct [OF this assms(2), of 0] assms(1) show ?thesis by auto
qed

lemma decode_loop_correct:
  assumes "length ds = 15" "is_bytes ds"
  shows "decode_loop n ds key_chars
           = Inr (key_chars @ map (\<lambda>r. key_map ! r) (remainders n (nat (le_val ds))))"
  using assms
proof (induction n arbitrary: ds key_chars)
  case 0
  then show ?case by simp
next
  case (Suc n)
  from full_pass [OF Suc.prems] obtain ds' where
    pass: "divide_pass (rev [0..<15]) 0 ds = Inr (le_val ds mod 24, ds')"
    and len: "length ds' = 15" and bytes: "is_bytes ds'"
    and val: "le_val ds' = le_val ds div 24"
    by blast
  have nn: "0 \<le> le_val ds" using le_val_bounds [OF Suc.prems(2)] by simp
  have idx: "index key_map (le_val ds mod 24) = Inr (key_map ! nat (le_val ds mod 24))"
    by (rule index_key_map) simp_all
  have m: "nat (le_val ds mod 24) = nat (le_val ds) mod 24"
    using nn by (simp add: nat_mod_distrib)
  have d: "nat (le_val ds div 24) = nat (le_val ds) div 24"
    using nn by (simp add: nat_div_distrib)
  show ?case
    using Suc.IH [OF len bytes, of "key_chars @ [key_map ! nat (le_val ds mod 24)]"]
    by (simp only: decode_loop.simps pass idx sum.case prod.case val m d remainders.simps
          list.map append_assoc append_Cons append_Nil)
qed

lemma length_remainders [simp]: "length (remainders c n) = c"
  by (induction c arbitrary: n) simp_all

lemma remainders_bound: "r \<in> set (remainders c n) \<Longrightarrow> r < 24"
  by (induction c arbitrary: n) auto

lemma range_step_25: "range_step 25 5 = [0, 5, 10, 15, 20]"
  by (simp add: range_step_def upt_rec)

lemma segments_25:
  assumes "length s = 25"
  shows "segments s = [take 5 s, take 5 (drop 5 s), take 5 (drop 10 s),
                       take 5 (drop 15 s), take 5 (drop 20 s)]"
proof -
  have "segments (drop 20 s) = [drop 20 s]" using assms by (subst segments.simps) simp
  then have "segments (drop 15 s) = [take 5 (drop 15 s), drop 20 s]"
    using assms by (subst segments.simps) simp
  then have "segments (drop 10 s) = [take 5 (drop 10 s), take 5 (drop 15 s), drop 20 s]"
    using assms by (subst segments.simps) simp
  then have "segments (drop 5 s) =
      [take 5 (drop 5 s), take 5 (drop 10 s), take 5 (drop 15 s), drop 20 s]"
    using assms by (subst segments.simps) simp
  then have "segments s =
      [take 5 s, take 5 (drop 5 s), take 5 (drop 10 s), take 5 (drop 15 s), drop 20 s]"
    using assms by (subst segments.simps) simp
  then show ?thesis using assms by simp
qed

lemma format_key_25: "length s = 25 \<Longrightarrow> format_key s = join ''-'' (segments s)"
  by (simp add: format_key_def range_step_25 segments_25)

lemma decode_product_id_window:
  fixes w :: "8 word list"
  assumes "length w = 15"
  shows "decode_product_id (map uint w) = Inr (reference_decode w)"
proof -
  have len: "length (map uint w) = 15" using assms by simp
  have "decode_loop 25 (map uint w) []
          = Inr (map (\<lambda>r. key_map ! r) (remainders 25 (window_number w)))"
    using decode_loop_correct [OF len is_bytes_uint, of 25 "[]"] by (simp add: le_val_uint)
  then show ?thesis
    by (simp add: decode_product_id_def reference_decode_def format_key_25)
qed



lemma remainders_numeral:
  "remainders (numeral k) n = (n mod 24) # remainders (pred_numeral k) (n div 24)"
proof -
  have "remainders (Suc (pred_numeral k)) n = (n mod 24) # remainders (pred_numeral k) (n div 24)"
    by (rule remainders.simps)
  then show ?thesis by (simp only: numeral_eq_Suc [symmetric])
qed

lemma sample_blob_window: "take 15 (drop 52 sample_blob) = sample_window"
  by (simp add: sample_blob_def sample_window_def)

lemma sample_window_number:
  "window_number sample_window = 17776795021070734394450262511062252"
  by (simp add: window_number_def sample_window_def)

lemma sample_remainders:
  "remainders 25 17776795021070734394450262511062252
     = [12, 20, 20, 13, 18, 12, 4, 9, 8, 23, 8, 6, 21, 23, 1, 8, 12, 5, 9, 17, 4, 6, 21, 7, 13]"
  by (simp add: remainders_numeral)

lemma sample_window_decoded:
  "reference_decode sample_window = ''VK7JG-2PHTM-C97JM-9MPGT-3V66T''"
  by (simp add: reference_decode_def sample_window_number sample_remainders segments_25
        key_map_def)

section \<open>The decode is the reference algorithm\<close>

text \<open>
  C3. When the registry holds a binary \<^verbatim>\<open>DigitalProductId\<close> of at least 67 bytes, so that
  the window of bytes 52 to 66 can be taken, \<^verbatim>\<open>get_windows_product_key\<close> returns what the
  reference algorithm computes from that window: the window read as a base-256 number,
  twenty-five divisions by 24, the remainders mapped through the alphabet
  \<^verbatim>\<open>BCDFGHJKMPQRTVWXY2346789\<close>, the characters reversed and joined in groups of five by
  hyphens.
\<close>

theorem product_key_refines_reference:
  assumes "winreg_query_value h current_version_path ''DigitalProductId'' = Inr (PBytes v)"
    and "67 \<le> length v"
  shows "get_windows_product_key h = Some (reference_decode (take 15 (drop 52 v)))"
proof -
  have "length (take 15 (drop 52 v)) = 15" using assms(2) by simp
  from decode_product_id_window [OF this] show ?thesis
    by (simp add: get_windows_product_key_def product_key_of_def assms(1))
qed

theorem product_key_refines_reference_witness:
  "winreg_query_value sample_host current_version_path ''DigitalProductId''
     = Inr (PBytes sample_blob)
   \<and> 67 \<le> length sample_blob
   \<and> get_windows_product_key sample_host = Some ''VK7JG-2PHTM-C97JM-9MPGT-3V66T''"
proof -
  have q: "winreg_query_value sample_host current_version_path ''DigitalProductId''
             = Inr (PBytes sample_blob)"
    by (simp add: sample_host_def)
  have l: "67 \<le> length sample_blob" by (simp add: sample_blob_def)
  from product_key_refines_reference [OF q l] show ?thesis
    using q l by (simp add: sample_blob_window sample_window_decoded)
qed



lemma divide_pass_total:
  assumes "list_all (\<lambda>i. i < length ds) js"
  shows "\<exists>k' ds'. divide_pass js k ds = Inr (k', ds') \<and> length ds' = length ds
           \<and> (js = [] \<or> (0 \<le> k' \<and> k' < 24))"
  using assms
proof (induction js arbitrary: k ds)
  case Nil
  then show ?case by simp
next
  case (Cons j js)
  define k1 where "k1 = (push_bit 8 k) OR (ds ! j)"
  have j: "j < length ds" and rest: "list_all (\<lambda>i. i < length (ds[j := k1 div 24])) js"
    using Cons.prems by simp_all
  from Cons.IH [OF rest, of "k1 mod 24"] obtain k' ds' where
    r: "divide_pass js (k1 mod 24) (ds[j := k1 div 24]) = Inr (k', ds')"
    and l: "length ds' = length ds" and b: "js = [] \<or> (0 \<le> k' \<and> k' < 24)"
    by auto
  have b': "0 \<le> k' \<and> k' < 24"
  proof (cases "js = []")
    case True
    then have "k' = k1 mod 24" using r by simp
    then show ?thesis by simp
  next
    case False
    then show ?thesis using b by simp
  qed
  have "divide_pass (j # js) k ds = Inr (k', ds')"
    using j r by (simp add: k1_def Let_def)
  then show ?case using l b' by simp
qed

lemma rev_upt_15: "rev [0..<15] = 14 # rev [0..<14]"
proof -
  have "[0..<Suc 14] = [0..<14] @ [14]" by (rule upt_Suc_append) simp
  then show ?thesis by simp
qed

lemma pass_in_bounds:
  assumes "length ds = 15"
  shows "\<exists>k' ds' c. divide_pass (rev [0..<15]) k ds = Inr (k', ds') \<and> length ds' = 15
           \<and> 0 \<le> k' \<and> k' < 24 \<and> index key_map k' = Inr c \<and> c \<in> set key_map"
proof -
  have "list_all (\<lambda>i. i < length ds) (rev [0..<15])"
    using assms by (simp add: list_all_iff)
  from divide_pass_total [OF this, of k] obtain k' ds' where
    r: "divide_pass (rev [0..<15]) k ds = Inr (k', ds')" and l: "length ds' = length ds"
    and b: "rev [0..<15] = [] \<or> (0 \<le> k' \<and> k' < 24)"
    by blast
  have b': "0 \<le> k'" "k' < 24" using b by (simp_all add: rev_upt_15)
  have i: "index key_map k' = Inr (key_map ! nat k')" using b' by (rule index_key_map)
  have "nat k' < length key_map" using b' by (simp add: key_map_def)
  then have "key_map ! nat k' \<in> set key_map" by (rule nth_mem)
  then show ?thesis using r l assms b' i by simp
qed

lemma short_window_fails:
  assumes "length ds < 15"
  shows "\<exists>e. decode_product_id ds = Inl e"
proof -
  have "\<not> 14 < length ds" using assms by simp
  then have "\<exists>e. divide_pass (rev [0..<15]) 0 ds = Inl e"
    by (simp add: rev_upt_15)
  then obtain e where "divide_pass (rev [0..<15]) 0 ds = Inl e" ..
  moreover have "(25::nat) = Suc 24" by simp
  ultimately have "decode_loop 25 ds [] = Inl e" by (simp only: decode_loop.simps sum.case)
  then show ?thesis by (simp add: decode_product_id_def)
qed

lemma reference_chars:
  "length (rev (map (\<lambda>r. key_map ! r) (remainders 25 n))) = 25"
  "in_alphabet (rev (map (\<lambda>r. key_map ! r) (remainders 25 n)))"
proof -
  show "length (rev (map (\<lambda>r. key_map ! r) (remainders 25 n))) = 25" by simp
  have "key_map ! r \<in> set key_map" if "r \<in> set (remainders 25 n)" for r
  proof -
    have "r < length key_map" using remainders_bound [OF that] by (simp add: key_map_def)
    then show ?thesis by (rule nth_mem)
  qed
  then show "in_alphabet (rev (map (\<lambda>r. key_map ! r) (remainders 25 n)))"
    by (auto simp: in_alphabet_def list_all_iff)
qed

lemma in_alphabet_take_drop: "in_alphabet s \<Longrightarrow> in_alphabet (take n (drop m s))"
  unfolding in_alphabet_def list_all_iff
  by (meson in_set_dropD in_set_takeD)

lemma in_alphabet_drop: "in_alphabet s \<Longrightarrow> in_alphabet (drop m s)"
  unfolding in_alphabet_def list_all_iff
  by (meson in_set_dropD)

lemma reference_decode_shape:
  "\<exists>g1 g2 g3 g4 g5.
     reference_decode w = g1 @ ''-'' @ g2 @ ''-'' @ g3 @ ''-'' @ g4 @ ''-'' @ g5
     \<and> list_all (\<lambda>g. length g = 5 \<and> in_alphabet g) [g1, g2, g3, g4, g5]"
proof -
  define s where "s = rev (map (\<lambda>r. key_map ! r) (remainders 25 (window_number w)))"
  have len: "length s = 25" and alpha: "in_alphabet s"
    unfolding s_def by (rule reference_chars)+
  have "reference_decode w = join ''-'' (segments s)"
    by (simp add: reference_decode_def s_def)
  then have "reference_decode w
      = take 5 s @ ''-'' @ take 5 (drop 5 s) @ ''-'' @ take 5 (drop 10 s) @ ''-''
        @ take 5 (drop 15 s) @ ''-'' @ take 5 (drop 20 s)"
    by (simp add: segments_25 [OF len])
  moreover have "list_all (\<lambda>g. length g = 5 \<and> in_alphabet g)
      [take 5 s, take 5 (drop 5 s), take 5 (drop 10 s), take 5 (drop 15 s), take 5 (drop 20 s)]"
    using len in_alphabet_take_drop [OF alpha] in_alphabet_take_drop [OF alpha, of 5 0]
      in_alphabet_drop [OF alpha]
    by simp
  ultimately show ?thesis by blast
qed

lemma reference_decode_length: "length (reference_decode w) = 29"
proof -
  from reference_decode_shape [of w] obtain g1 g2 g3 g4 g5 where
    "reference_decode w = g1 @ ''-'' @ g2 @ ''-'' @ g3 @ ''-'' @ g4 @ ''-'' @ g5"
    "list_all (\<lambda>g. length g = 5 \<and> in_alphabet g) [g1, g2, g3, g4, g5]"
    by blast
  then show ?thesis by simp
qed

lemma product_key_of_Some:
  assumes "product_key_of reg = Some key"
  shows "\<exists>v. reg = Inr (PBytes v) \<and> 67 \<le> length v
           \<and> key = reference_decode (take 15 (drop 52 v))"
proof -
  from assms obtain v where reg: "reg = Inr (PBytes v)"
    by (auto simp: product_key_of_def split: sum.splits pyval.splits)
  have long: "67 \<le> length v"
  proof (rule ccontr)
    assume "\<not> 67 \<le> length v"
    then have "length (map uint (take 15 (drop 52 v))) < 15" by simp
    from short_window_fails [OF this] assms reg show False
      by (auto simp: product_key_of_def)
  qed
  then have "length (take 15 (drop 52 v)) = 15" by simp
  from decode_product_id_window [OF this] assms reg
  have "key = reference_decode (take 15 (drop 52 v))"
    by (simp add: product_key_of_def)
  then show ?thesis using reg long by blast
qed

section \<open>The decode loop stays in bounds and returns a formatted key\<close>

text \<open>
  C9. On a list of 15 digits every inner division pass returns, with a remainder \<open>k\<close> in
  \<open>[0, 24)\<close> and again 15 digits, so that \<^verbatim>\<open>key_map[k]\<close> is in bounds and yields a character
  of the alphabet; and on a window of 15 bytes the whole decode returns a string of 29
  characters: five groups of five characters of the alphabet, joined by four hyphens.
\<close>

theorem decode_total_in_bounds:
  fixes w :: "8 word list"
  assumes "length w = 15"
  shows "(\<forall>ds k. length ds = 15 \<longrightarrow>
            (\<exists>k' ds' c. divide_pass (rev [0..<15]) k ds = Inr (k', ds') \<and> length ds' = 15
               \<and> 0 \<le> k' \<and> k' < 24 \<and> index key_map k' = Inr c \<and> c \<in> set key_map))
       \<and> (\<exists>g1 g2 g3 g4 g5.
            decode_product_id (map uint w)
              = Inr (g1 @ ''-'' @ g2 @ ''-'' @ g3 @ ''-'' @ g4 @ ''-'' @ g5)
            \<and> list_all (\<lambda>g. length g = 5 \<and> in_alphabet g) [g1, g2, g3, g4, g5]
            \<and> length (g1 @ ''-'' @ g2 @ ''-'' @ g3 @ ''-'' @ g4 @ ''-'' @ g5) = 29)"
proof (intro conjI allI impI)
  fix ds :: "int list" and k :: int
  assume "length ds = 15"
  then show "\<exists>k' ds' c. divide_pass (rev [0..<15]) k ds = Inr (k', ds') \<and> length ds' = 15
               \<and> 0 \<le> k' \<and> k' < 24 \<and> index key_map k' = Inr c \<and> c \<in> set key_map"
    by (rule pass_in_bounds)
next
  from reference_decode_shape [of w] obtain g1 g2 g3 g4 g5 where
    e: "reference_decode w = g1 @ ''-'' @ g2 @ ''-'' @ g3 @ ''-'' @ g4 @ ''-'' @ g5"
    and g: "list_all (\<lambda>g. length g = 5 \<and> in_alphabet g) [g1, g2, g3, g4, g5]"
    by blast
  have "decode_product_id (map uint w)
          = Inr (g1 @ ''-'' @ g2 @ ''-'' @ g3 @ ''-'' @ g4 @ ''-'' @ g5)"
    using decode_product_id_window [OF assms] e by simp
  moreover have "length (g1 @ ''-'' @ g2 @ ''-'' @ g3 @ ''-'' @ g4 @ ''-'' @ g5) = 29"
    using g by simp
  ultimately show "\<exists>g1 g2 g3 g4 g5.
            decode_product_id (map uint w)
              = Inr (g1 @ ''-'' @ g2 @ ''-'' @ g3 @ ''-'' @ g4 @ ''-'' @ g5)
            \<and> list_all (\<lambda>g. length g = 5 \<and> in_alphabet g) [g1, g2, g3, g4, g5]
            \<and> length (g1 @ ''-'' @ g2 @ ''-'' @ g3 @ ''-'' @ g4 @ ''-'' @ g5) = 29"
    using g by blast
qed


theorem decode_total_in_bounds_witness:
  "length sample_window = 15
   \<and> (\<exists>k' ds' c. divide_pass (rev [0..<15]) 0 (map uint sample_window) = Inr (k', ds')
         \<and> length ds' = 15 \<and> 0 \<le> k' \<and> k' < 24 \<and> index key_map k' = Inr c
         \<and> c \<in> set key_map)
   \<and> (\<exists>g1 g2 g3 g4 g5.
         decode_product_id (map uint sample_window)
           = Inr (g1 @ ''-'' @ g2 @ ''-'' @ g3 @ ''-'' @ g4 @ ''-'' @ g5)
         \<and> list_all (\<lambda>g. length g = 5 \<and> in_alphabet g) [g1, g2, g3, g4, g5]
         \<and> length (g1 @ ''-'' @ g2 @ ''-'' @ g3 @ ''-'' @ g4 @ ''-'' @ g5) = 29)
   \<and> decode_product_id (map uint sample_window) = Inr ''VK7JG-2PHTM-C97JM-9MPGT-3V66T''"
proof -
  have l: "length sample_window = 15" by (simp add: sample_window_def)
  have l': "length (map uint sample_window) = 15" using l by simp
  note t = decode_total_in_bounds [OF l]
  from t have a: "\<exists>k' ds' c. divide_pass (rev [0..<15]) 0 (map uint sample_window) = Inr (k', ds')
         \<and> length ds' = 15 \<and> 0 \<le> k' \<and> k' < 24 \<and> index key_map k' = Inr c
         \<and> c \<in> set key_map"
    using l' by blast
  have v: "decode_product_id (map uint sample_window) = Inr ''VK7JG-2PHTM-C97JM-9MPGT-3V66T''"
    using decode_product_id_window [OF l] sample_window_decoded by simp
  show ?thesis using l a t v by blast
qed

section \<open>The product key is masked\<close>

text \<open>
  C2. Whenever \<^verbatim>\<open>get_windows_info\<close> reports its normal fields (\<^verbatim>\<open>platform.win32_ver()\<close> returned):
  if the decode yields a key, the \<^verbatim>\<open>Product Key\<close> field is \<^verbatim>\<open>XXXXX-XXXXX-XXXXX-XXXXX-\<close> followed
  by the last five characters of that key, 29 characters in all; if the decode fails or
  yields no key, the field is \<^verbatim>\<open>Not available\<close>.
\<close>

theorem product_key_field_masked:
  assumes "platform_win32_ver h = Inr ver"
  shows "(\<forall>key. get_windows_product_key h = Some key \<longrightarrow>
            getitem (get_windows_info h) ''Product Key''
              = Some (PStr (''XXXXX-XXXXX-XXXXX-XXXXX-'' @ drop (length key - 5) key))
            \<and> length (drop (length key - 5) key) = 5
            \<and> length (''XXXXX-XXXXX-XXXXX-XXXXX-'' @ drop (length key - 5) key) = 29)
       \<and> (get_windows_product_key h = None \<longrightarrow>
            getitem (get_windows_info h) ''Product Key'' = Some (PStr ''Not available''))"
proof -
  obtain release version csd ptype where ver: "ver = (release, version, csd, ptype)"
    by (cases ver) auto
  have field: "getitem (get_windows_info h) ''Product Key''
                 = Some (PStr (masked_key_of (get_windows_product_key h)))"
    using assms ver by (simp add: get_windows_info_def getitem_def Let_def)
  have some: "length key = 29" if "get_windows_product_key h = Some key" for key
  proof -
    from that product_key_of_Some obtain v where
      "key = reference_decode (take 15 (drop 52 v))"
      unfolding get_windows_product_key_def by blast
    then show ?thesis by (simp add: reference_decode_length)
  qed
  show ?thesis
  proof (intro conjI allI impI)
    fix key assume k: "get_windows_product_key h = Some key"
    from some [OF k] have l: "length key = 29" .
    then have ne: "key \<noteq> []" by auto
    show "getitem (get_windows_info h) ''Product Key''
              = Some (PStr (''XXXXX-XXXXX-XXXXX-XXXXX-'' @ drop (length key - 5) key))"
      using field k ne by (simp add: masked_key_of_def)
    show "length (drop (length key - 5) key) = 5" using l by simp
    show "length (''XXXXX-XXXXX-XXXXX-XXXXX-'' @ drop (length key - 5) key) = 29"
      using l by simp
  next
    assume "get_windows_product_key h = None"
    then show "getitem (get_windows_info h) ''Product Key'' = Some (PStr ''Not available'')"
      using field by (simp add: masked_key_of_def)
  qed
qed

lemma sample_host_key:
  "get_windows_product_key sample_host = Some ''VK7JG-2PHTM-C97JM-9MPGT-3V66T''"
proof -
  have q: "winreg_query_value sample_host current_version_path ''DigitalProductId''
             = Inr (PBytes sample_blob)"
    by (simp add: sample_host_def)
  have "take 15 (drop 52 sample_blob) = sample_window"
    by (rule sample_blob_window)
  moreover have "decode_product_id (map uint sample_window)
      = Inr ''VK7JG-2PHTM-C97JM-9MPGT-3V66T''"
    using decode_product_id_window [of sample_window] sample_window_decoded
    by (simp add: sample_window_def)
  ultimately show ?thesis
    by (simp add: get_windows_product_key_def product_key_of_def q)
qed

theorem product_key_field_masked_witness:
  "getitem (get_windows_info sample_host) ''Product Key''
     = Some (PStr ''XXXXX-XXXXX-XXXXX-XXXXX-3V66T'')
   \<and> getitem (get_windows_info no_registry_host) ''Product Key''
     = Some (PStr ''Not available'')"
proof -
  have v1: "platform_win32_ver sample_host
              = Inr (''10'', ''10.0.19045'', ''SP0'', ''Multiprocessor Free'')"
    by (simp add: sample_host_def)
  have v2: "platform_win32_ver no_registry_host
              = Inr (''10'', ''10.0.19045'', ''SP0'', ''Multiprocessor Free'')"
    by (simp add: sample_host_def no_registry_host_def)
  have n: "get_windows_product_key no_registry_host = None"
    by (simp add: get_windows_product_key_def product_key_of_def no_registry_host_def)
  from product_key_field_masked [OF v1] sample_host_key
  have a: "getitem (get_windows_info sample_host) ''Product Key''
     = Some (PStr ''XXXXX-XXXXX-XXXXX-XXXXX-3V66T'')"
    by simp
  from product_key_field_masked [OF v2] n
  have b: "getitem (get_windows_info no_registry_host) ''Product Key''
     = Some (PStr ''Not available'')"
    by simp
  show ?thesis using a b by simp
qed

lemma hex_nat_small: "n < 16 \<Longrightarrow> hex_nat n = [digit_char n]"
  by (subst hex_nat.simps) simp

lemma hex_nat_byte: "16 \<le> n \<Longrightarrow> n < 256 \<Longrightarrow> hex_nat n = [digit_char (n div 16), digit_char (n mod 16)]"
proof -
  assume a: "16 \<le> n" "n < 256"
  then have "n div 16 < 16" by simp
  then have "hex_nat (n div 16) = [digit_char (n div 16)]" by (rule hex_nat_small)
  then show ?thesis using a by (subst hex_nat.simps) simp
qed

lemma digit_char_0: "digit_char 0 = CHR ''0''"
  by (simp add: digit_char_def)

lemma format_02x_byte:
  assumes "0 \<le> x" "x < 256"
  shows "format_02x x = [digit_char (nat x div 16), digit_char (nat x mod 16)]"
proof (cases "nat x < 16")
  case True
  then show ?thesis using assms
    by (simp add: format_02x_def hex_nat_small digit_char_0)
next
  case False
  then have "16 \<le> nat x" "nat x < 256" using assms by simp_all
  then show ?thesis using assms
    by (simp add: format_02x_def hex_nat_byte)
qed

lemma byte_extract: "(drop_bit e (node::int)) AND 0xff = (node div 2 ^ e) mod 256"
proof -
  have "(255::int) = mask 8" by (simp add: mask_eq_exp_minus_1)
  then have "(drop_bit e node) AND 0xff = take_bit 8 (drop_bit e node)"
    by (simp add: take_bit_eq_mask)
  then show ?thesis by (simp add: take_bit_eq_mod drop_bit_eq_div)
qed

lemma octet_format:
  "format_02x ((drop_bit (8 * i) (node::int)) AND 0xff) = reference_octet node i"
proof -
  have e: "(drop_bit (8 * i) node) AND 0xff = (node div 256 ^ i) mod 256"
    by (simp add: byte_extract power_mult)
  have "0 \<le> (node div 256 ^ i) mod 256" "(node div 256 ^ i) mod 256 < 256" by simp_all
  from format_02x_byte [OF this] show ?thesis
    by (simp add: e reference_octet_def Let_def)
qed

lemma range_step_48: "range_step (8 * 6) 8 = [0, 8, 16, 24, 32, 40]"
  by (simp add: range_step_def upt_rec)

lemma mac_address_reference: "mac_address node = reference_mac node"
proof -
  have "map (\<lambda>elements. format_02x ((drop_bit elements node) AND 0xff)) [0, 8, 16, 24, 32, 40]
          = map (reference_octet node) [0, 1, 2, 3, 4, 5]"
    using octet_format [of 0 node] octet_format [of 1 node] octet_format [of 2 node]
      octet_format [of 3 node] octet_format [of 4 node] octet_format [of 5 node]
    by simp
  then show ?thesis
    by (simp only: mac_address_def reference_mac_def range_step_48) simp
qed

lemma reference_octet_shape:
  "length (reference_octet node i) = 2"
  "list_all (\<lambda>c. c \<in> set ''0123456789abcdef'') (reference_octet node i)"
proof -
  show "length (reference_octet node i) = 2" by (simp add: reference_octet_def Let_def)
  have d: "digit_char d \<in> set ''0123456789abcdef''" if "d < 16" for d
  proof -
    have "d < length ''0123456789abcdef''" using that by simp
    then show ?thesis unfolding digit_char_def by (rule nth_mem)
  qed
  have "nat ((node div 256 ^ i) mod 256) div 16 < 16" by simp
  moreover have "nat ((node div 256 ^ i) mod 256) mod 16 < 16" by simp
  ultimately show "list_all (\<lambda>c. c \<in> set ''0123456789abcdef'') (reference_octet node i)"
    using d unfolding reference_octet_def Let_def by simp
qed

lemma get_system_info_mac:
  assumes "get_system_info h = Inr info"
  shows "\<exists>node. uuid_getnode h = Inr node
           \<and> getitem info ''MAC Address'' = Some (PStr (mac_address node))"
  using assms
  by (auto simp: get_system_info_def bind_res_def getitem_def split: sum.splits)

section \<open>The MAC address\<close>

text \<open>
  C4. Whenever the identity probe returns, its \<^verbatim>\<open>MAC Address\<close> field is, for the node
  identifier \<^verbatim>\<open>uuid.getnode()\<close> gave (any integer, so every 48-bit value), the six octets
  of the identifier, most significant first, each rendered as two lowercase hexadecimal
  digits, joined by colons.
\<close>

theorem mac_address_field:
  assumes "get_system_info h = Inr info"
  shows "\<exists>node. uuid_getnode h = Inr node
           \<and> getitem info ''MAC Address'' = Some (PStr (reference_mac node))
           \<and> reference_mac node
                = reference_octet node 5 @ '':'' @ reference_octet node 4 @ '':''
                  @ reference_octet node 3 @ '':'' @ reference_octet node 2 @ '':''
                  @ reference_octet node 1 @ '':'' @ reference_octet node 0
           \<and> list_all (\<lambda>i. length (reference_octet node i) = 2
                  \<and> list_all (\<lambda>c. c \<in> set ''0123456789abcdef'') (reference_octet node i))
                [5, 4, 3, 2, 1, 0]"
proof -
  from get_system_info_mac [OF assms] obtain node where
    n: "uuid_getnode h = Inr node"
    and f: "getitem info ''MAC Address'' = Some (PStr (mac_address node))"
    by blast
  have "reference_mac node
          = reference_octet node 5 @ '':'' @ reference_octet node 4 @ '':''
            @ reference_octet node 3 @ '':'' @ reference_octet node 2 @ '':''
            @ reference_octet node 1 @ '':'' @ reference_octet node 0"
    by (simp add: reference_mac_def)
  moreover have "list_all (\<lambda>i. length (reference_octet node i) = 2
                  \<and> list_all (\<lambda>c. c \<in> set ''0123456789abcdef'') (reference_octet node i))
                [5, 4, 3, 2, 1, 0]"
    using reference_octet_shape by simp
  ultimately show ?thesis using n f by (auto simp: mac_address_reference)
qed

lemma sample_mac: "reference_mac 0x001A2B3C4D5E = ''00:1a:2b:3c:4d:5e''"
  by (simp add: reference_mac_def reference_octet_def digit_char_def Let_def)

lemma sample_system_info:
  "get_system_info sample_host =
     Inr [(''System'', PStr ''Windows''),
          (''Node Name'', PStr ''DESKTOP-01''),
          (''Release'', PStr ''10''),
          (''Version'', PStr ''10.0.19045''),
          (''Machine'', PStr ''AMD64''),
          (''Processor'', PStr ''Intel64 Family 6''),
          (''Platform'', PStr ''Windows-10-10.0.19045-SP0''),
          (''Architecture'', PStr ''64bit''),
          (''Hostname'', PStr ''DESKTOP-01''),
          (''IP Address'', PStr ''192.168.1.10''),
          (''MAC Address'', PStr (mac_address 0x001A2B3C4D5E))]"
  by (simp add: get_system_info_def bind_res_def sample_host_def)

theorem mac_address_field_witness:
  "\<exists>info. get_system_info sample_host = Inr info
     \<and> getitem info ''MAC Address'' = Some (PStr ''00:1a:2b:3c:4d:5e'')"
proof -
  from mac_address_field [OF sample_system_info] obtain node where
    n: "uuid_getnode sample_host = Inr node"
    and f: "getitem [(''System'', PStr ''Windows''),
          (''Node Name'', PStr ''DESKTOP-01''),
          (''Release'', PStr ''10''),
          (''Version'', PStr ''10.0.19045''),
          (''Machine'', PStr ''AMD64''),
          (''Processor'', PStr ''Intel64 Family 6''),
          (''Platform'', PStr ''Windows-10-10.0.19045-SP0''),
          (''Architecture'', PStr ''64bit''),
          (''Hostname'', PStr ''DESKTOP-01''),
          (''IP Address'', PStr ''192.168.1.10''),
          (''MAC Address'', PStr (mac_address 0x001A2B3C4D5E))] ''MAC Address''
        = Some (PStr (reference_mac node))"
    by blast
  have "node = 0x001A2B3C4D5E" using n by (simp add: sample_host_def)
  then show ?thesis using f sample_system_info by (simp add: sample_mac)
qed

section \<open>A failing hostname lookup is not caught\<close>

text \<open>
  C1. On the host whose name the resolver does not know, \<^verbatim>\<open>socket.gethostbyname\<close> raises
  inside \<^verbatim>\<open>get_system_info\<close>, which has no \<^verbatim>\<open>try\<close>; the exception leaves the probe and the
  dictionary display of \<^verbatim>\<open>main\<close>, and no report is built.
\<close>

theorem system_data_propagates_lookup_failure:
  "system_data unresolvable_host = Inl (PyExc GaiError ''[Errno 11001] getaddrinfo failed'')"
  by (simp add: system_data_def get_system_info_def bind_res_def unresolvable_host_def
        sample_host_def)

lemma system_data_Inr:
  assumes "system_data h = Inr report"
  shows "\<exists>system_info. get_system_info h = Inr system_info \<and> report =
           [(''system_info'', PDict system_info),
            (''hardware_info'', PDict (get_hardware_info h)),
            (''windows_info'', PDict (get_windows_info h)),
            (''office_info'', PDict (get_office_info h)),
            (''cpu_info'', PDict (get_cpu_info h)),
            (''memory_info'', PDict (get_memory_info h)),
            (''disk_info'', PDict (get_disk_info h)),
            (''network_info'', PDict (get_network_info h)),
            (''processes'', get_running_processes h)]"
  using assms by (auto simp: system_data_def bind_res_def split: sum.splits)

lemma running_processes_shape:
  "\<exists>entries. get_running_processes h = PList entries \<and> list_all is_dict entries"
  by (cases "top_processes h 20")
    (simp_all add: get_running_processes_def info_dict_def list_all_iff)

section \<open>The processes entry is a list\<close>

text \<open>
  C10. When \<^verbatim>\<open>psutil.process_iter\<close> itself raises, or one of its processes raises an
  exception other than the three the loop drops, \<^verbatim>\<open>get_running_processes\<close> returns a list of
  one dictionary with the single field \<^verbatim>\<open>Error\<close>. In every case it returns a list of
  dictionaries, and in every report \<^verbatim>\<open>main\<close> builds the \<^verbatim>\<open>processes\<close> entry is such a list while
  the other eight entries are dictionaries.
\<close>

theorem processes_entry_is_list:
  "(\<forall>e. psutil_process_iter h = Inl e
         \<or> (\<exists>procs. psutil_process_iter h = Inr procs
               \<and> enumerate_processes procs [] = Inl e) \<longrightarrow>
       get_running_processes h
         = PList [PDict [(''Error'', PStr ''Unable to retrieve process information'')]])
   \<and> (\<exists>entries. get_running_processes h = PList entries \<and> list_all is_dict entries)
   \<and> (\<forall>report. system_data h = Inr report \<longrightarrow>
         (\<exists>entries. getitem report ''processes'' = Some (PList entries)
            \<and> list_all is_dict entries)
         \<and> list_all (\<lambda>k. case getitem report k of None \<Rightarrow> False | Some v \<Rightarrow> is_dict v)
              [''system_info'', ''hardware_info'', ''windows_info'', ''office_info'',
               ''cpu_info'', ''memory_info'', ''disk_info'', ''network_info''])"
proof (intro conjI allI impI)
  fix e
  assume "psutil_process_iter h = Inl e
         \<or> (\<exists>procs. psutil_process_iter h = Inr procs
               \<and> enumerate_processes procs [] = Inl e)"
  then have "top_processes h 20 = Inl e"
    by (auto simp: top_processes_def bind_res_def)
  then show "get_running_processes h
         = PList [PDict [(''Error'', PStr ''Unable to retrieve process information'')]]"
    by (simp add: get_running_processes_def)
next
  show "\<exists>entries. get_running_processes h = PList entries \<and> list_all is_dict entries"
    by (rule running_processes_shape)
next
  fix report assume "system_data h = Inr report"
  from system_data_Inr [OF this] obtain system_info where r: "report =
           [(''system_info'', PDict system_info),
            (''hardware_info'', PDict (get_hardware_info h)),
            (''windows_info'', PDict (get_windows_info h)),
            (''office_info'', PDict (get_office_info h)),
            (''cpu_info'', PDict (get_cpu_info h)),
            (''memory_info'', PDict (get_memory_info h)),
            (''disk_info'', PDict (get_disk_info h)),
            (''network_info'', PDict (get_network_info h)),
            (''processes'', get_running_processes h)]"
    by blast
  have p: "getitem report ''processes'' = Some (get_running_processes h)"
    by (simp add: r getitem_def)
  show "\<exists>entries. getitem report ''processes'' = Some (PList entries)
            \<and> list_all is_dict entries"
    using running_processes_shape [of h] p by auto
  show "list_all (\<lambda>k. case getitem report k of None \<Rightarrow> False | Some v \<Rightarrow> is_dict v)
              [''system_info'', ''hardware_info'', ''windows_info'', ''office_info'',
               ''cpu_info'', ''memory_info'', ''disk_info'', ''network_info'']"
    by (simp add: r getitem_def)
qed

lemma no_process_host_info: "\<exists>info. get_system_info no_process_host = Inr info"
  by (simp add: get_system_info_def bind_res_def no_process_host_def sample_host_def)

theorem processes_entry_is_list_witness:
  "psutil_process_iter no_process_host = Inl (PyExc OSError ''enumeration failed'')
   \<and> (\<exists>report. system_data no_process_host = Inr report
         \<and> getitem report ''processes''
             = Some (PList [PDict [(''Error'', PStr ''Unable to retrieve process information'')]])
         \<and> list_all (\<lambda>k. case getitem report k of None \<Rightarrow> False | Some v \<Rightarrow> is_dict v)
              [''system_info'', ''hardware_info'', ''windows_info'', ''office_info'',
               ''cpu_info'', ''memory_info'', ''disk_info'', ''network_info''])"
proof -
  have f: "psutil_process_iter no_process_host = Inl (PyExc OSError ''enumeration failed'')"
    by (simp add: no_process_host_def)
  from no_process_host_info obtain info where "get_system_info no_process_host = Inr info" ..
  then obtain report where r: "system_data no_process_host = Inr report"
    by (simp add: system_data_def bind_res_def)
  note t = processes_entry_is_list [of no_process_host]
  from t f have e: "get_running_processes no_process_host
         = PList [PDict [(''Error'', PStr ''Unable to retrieve process information'')]]"
    by blast
  from t r have l: "list_all (\<lambda>k. case getitem report k of None \<Rightarrow> False | Some v \<Rightarrow> is_dict v)
              [''system_info'', ''hardware_info'', ''windows_info'', ''office_info'',
               ''cpu_info'', ''memory_info'', ''disk_info'', ''network_info'']"
    by blast
  from system_data_Inr [OF r] have "getitem report ''processes''
      = Some (get_running_processes no_process_host)"
    by (auto simp: getitem_def)
  then show ?thesis using f r e l by auto
qed

lemma enumerate_processes_reported:
  assumes "list_all enumerable procs"
  shows "enumerate_processes procs acc = Inr (acc @ reported procs)"
  using assms
proof (induction procs arbitrary: acc)
  case Nil
  then show ?case by simp
next
  case (Cons r rs)
  then show ?case by (cases r) simp_all
qed

lemma cpu_key_reading: "cpu_key = reading_or_zero"
  by (rule ext) (simp add: cpu_key_def reading_or_zero_def split: option.splits)

lemma sort_reverse_mset: "mset (sort_reverse key xs) = mset xs"
  by (simp add: sort_reverse_def)

lemma sort_reverse_sorted: "sorted_wrt (\<lambda>a b. key b \<le> key a) (sort_reverse key xs)"
proof -
  have "sorted (map key (sort_key key (rev xs)))" by simp
  then have "sorted_wrt (\<lambda>a b. key a \<le> key b) (sort_key key (rev xs))"
    by (simp add: sorted_map)
  then show ?thesis by (simp add: sort_reverse_def sorted_wrt_rev)
qed

lemma sort_reverse_stable:
  "filter (\<lambda>x. key x = k) (sort_reverse key xs) = filter (\<lambda>x. key x = k) xs"
proof -
  have "filter (\<lambda>x. key x = k) (sort_key key (rev xs)) = filter (\<lambda>x. key x = k) (rev xs)"
    by (rule sort_key_stable)
  then have "rev (filter (\<lambda>x. key x = k) (sort_key key (rev xs)))
               = rev (filter (\<lambda>x. key x = k) (rev xs))"
    by simp
  then show ?thesis by (simp add: sort_reverse_def rev_filter)
qed

lemma top_processes_length: "top_processes h limit = Inr ps \<Longrightarrow> length ps \<le> limit"
  by (auto simp: top_processes_def bind_res_def split: sum.splits)

lemma running_processes_length:
  "\<exists>entries. get_running_processes h = PList entries \<and> length entries \<le> 20"
proof (cases "top_processes h 20")
  case (Inl e)
  then show ?thesis by (simp add: get_running_processes_def)
next
  case (Inr ps)
  then show ?thesis using top_processes_length [OF Inr] by (simp add: get_running_processes_def)
qed

section \<open>The process snapshot\<close>

text \<open>
  What holds of the loop, the sort and the limit: the result has at most 20 entries;
  when every read that raises raises one of the three exceptions the loop drops, the
  entries are the first 20 of a list that holds exactly the records read, is sorted by
  CPU percent in non-increasing order with an unavailable reading counted as zero, and
  keeps records of equal CPU percent in enumeration order.
\<close>

lemma snapshot_sorted_top20:
  "(\<exists>entries. get_running_processes h = PList entries \<and> length entries \<le> 20)
   \<and> (\<forall>procs. psutil_process_iter h = Inr procs \<and> list_all enumerable procs \<longrightarrow>
         (\<exists>full. get_running_processes h = PList (map info_dict (take 20 full))
            \<and> mset full = mset (reported procs)
            \<and> sorted_wrt (\<lambda>a b. reading_or_zero b \<le> reading_or_zero a) full
            \<and> (\<forall>k. filter (\<lambda>x. reading_or_zero x = k) full
                    = filter (\<lambda>x. reading_or_zero x = k) (reported procs))))"
proof (intro conjI allI impI)
  show "\<exists>entries. get_running_processes h = PList entries \<and> length entries \<le> 20"
    by (rule running_processes_length)
next
  fix procs
  assume a: "psutil_process_iter h = Inr procs \<and> list_all enumerable procs"
  define full where "full = sort_reverse reading_or_zero (reported procs)"
  have e: "enumerate_processes procs [] = Inr (reported procs)"
    using enumerate_processes_reported [of procs "[]"] a by simp
  have "top_processes h 20 = Inr (take 20 full)"
    using a e by (simp add: top_processes_def bind_res_def cpu_key_reading full_def)
  then have "get_running_processes h = PList (map info_dict (take 20 full))"
    by (simp add: get_running_processes_def)
  moreover have "mset full = mset (reported procs)"
    by (simp add: full_def sort_reverse_mset)
  moreover have "sorted_wrt (\<lambda>a b. reading_or_zero b \<le> reading_or_zero a) full"
    unfolding full_def by (rule sort_reverse_sorted)
  moreover have "\<forall>k. filter (\<lambda>x. reading_or_zero x = k) full
                    = filter (\<lambda>x. reading_or_zero x = k) (reported procs)"
    unfolding full_def by (simp add: sort_reverse_stable)
  ultimately show "\<exists>full. get_running_processes h = PList (map info_dict (take 20 full))
            \<and> mset full = mset (reported procs)
            \<and> sorted_wrt (\<lambda>a b. reading_or_zero b \<le> reading_or_zero a) full
            \<and> (\<forall>k. filter (\<lambda>x. reading_or_zero x = k) full
                    = filter (\<lambda>x. reading_or_zero x = k) (reported procs))"
    by blast
qed

text \<open>
  What psutil yields never makes the read of \<^verbatim>\<open>proc.info\<close> raise, so the inner handler of
  the loop never runs: every process that \<^verbatim>\<open>as_dict\<close> returns a record for is read, also one
  whose attributes were denied or that is a zombie.
\<close>

lemma process_iter_yield_reported:
  "list_all enumerable (process_iter_yield ps)
   \<and> reported (process_iter_yield ps) = List.map_filter as_dict ps"
  by (induction ps) (simp_all add: List.map_filter_simps split: option.splits)

lemma yielded_process_kept:
  assumes "p \<in> set ps" "as_dict p = Some info"
  shows "enumerate_processes (process_iter_yield ps) [] = Inr (List.map_filter as_dict ps)
         \<and> info \<in> set (List.map_filter as_dict ps)"
proof -
  have "enumerate_processes (process_iter_yield ps) [] = Inr (List.map_filter as_dict ps)"
    using process_iter_yield_reported [of ps]
      enumerate_processes_reported [of "process_iter_yield ps" "[]"]
    by simp
  moreover have "info \<in> set (List.map_filter as_dict ps)"
    using assms by (force simp: List.map_filter_def)
  ultimately show ?thesis by simp
qed




lemma setitem_fresh: "k \<notin> fst ` set d \<Longrightarrow> setitem d k v = d @ [(k, v)]"
  unfolding setitem_def by (induction d) auto

lemma query_two_fields_cases:
  "query_two_fields h cmd key1 key2 [] = []
   \<or> (\<exists>a b. query_two_fields h cmd key1 key2 [] = setitem [(key1, PStr a)] key2 (PStr b))"
  by (auto simp: query_two_fields_def Let_def setitem_def split: sum.splits prod.splits)

lemma query_two_fields_append:
  assumes "key1 \<noteq> key2" "key1 \<notin> fst ` set info" "key2 \<notin> fst ` set info"
  shows "query_two_fields h cmd key1 key2 info = info @ query_two_fields h cmd key1 key2 []"
proof -
  have "setitem (setitem info key1 a) key2 b = info @ setitem (setitem [] key1 a) key2 b" for a b
    using assms by (simp add: setitem_fresh)
  then show ?thesis
    by (simp add: query_two_fields_def Let_def split: sum.splits prod.splits)
qed

lemma query_one_field_cases:
  "query_one_field h cmd key1 [] = [] \<or> (\<exists>a. query_one_field h cmd key1 [] = [(key1, PStr a)])"
  by (auto simp: query_one_field_def Let_def setitem_def split: sum.splits prod.splits)

lemma query_one_field_append:
  assumes "key1 \<notin> fst ` set info"
  shows "query_one_field h cmd key1 info = info @ query_one_field h cmd key1 []"
proof -
  have "setitem info key1 a = info @ setitem [] key1 a" for a
    using assms by (simp add: setitem_fresh)
  then show ?thesis
    by (simp add: query_one_field_def Let_def split: sum.splits prod.splits)
qed

lemma computersystem_fields:
  "computersystem_query h [] = []
   \<or> (\<exists>a b. computersystem_query h [] = [(''Manufacturer'', PStr a), (''Model'', PStr b)])"
  using query_two_fields_cases [of h _ "''Manufacturer''" "''Model''"]
  by (auto simp: computersystem_query_def setitem_def)

lemma bios_fields:
  "bios_query h [] = [] \<or> (\<exists>a. bios_query h [] = [(''Serial Number'', PStr a)])"
  using query_one_field_cases [of h _ "''Serial Number''"]
  by (auto simp: bios_query_def)

lemma baseboard_fields:
  "baseboard_query h [] = []
   \<or> (\<exists>a b. baseboard_query h [] =
         [(''Motherboard Manufacturer'', PStr a), (''Motherboard Model'', PStr b)])"
  using query_two_fields_cases [of h _ "''Motherboard Manufacturer''" "''Motherboard Model''"]
  by (auto simp: baseboard_query_def setitem_def)

lemma hardware_concat:
  "baseboard_query h (bios_query h (computersystem_query h []))
     = computersystem_query h [] @ bios_query h [] @ baseboard_query h []"
proof -
  define q1 where "q1 = computersystem_query h []"
  define q2 where "q2 = bios_query h []"
  have k1: "fst ` set q1 \<subseteq> {''Manufacturer'', ''Model''}"
    using computersystem_fields [of h] unfolding q1_def by auto
  have k2: "fst ` set q2 \<subseteq> {''Serial Number''}"
    using bios_fields [of h] unfolding q2_def by auto
  have "''Serial Number'' \<notin> fst ` set q1" using k1 by auto
  then have s2: "bios_query h q1 = q1 @ q2"
    unfolding bios_query_def q2_def by (rule query_one_field_append)
  have "''Motherboard Manufacturer'' \<notin> fst ` set (q1 @ q2)"
    "''Motherboard Model'' \<notin> fst ` set (q1 @ q2)"
    using k1 k2 by auto
  then have "baseboard_query h (q1 @ q2) = (q1 @ q2) @ baseboard_query h []"
    unfolding baseboard_query_def by (intro query_two_fields_append) simp_all
  then show ?thesis using s2 by (simp add: q1_def q2_def)
qed

lemma query_two_fields_reference:
  assumes "key1 \<noteq> key2"
  shows "query_two_fields h cmd key1 key2 [] = pair_fields key1 key2 (inventory_row h cmd)"
  using assms
  by (auto simp: query_two_fields_def pair_fields_def inventory_row_def setitem_def Let_def
        split: sum.splits prod.splits list.splits)

lemma query_one_field_reference:
  "query_one_field h cmd key1 [] =
     (case inventory_row h cmd of None \<Rightarrow> [] | Some r \<Rightarrow> [(key1, PStr r)])"
  by (auto simp: query_one_field_def inventory_row_def setitem_def Let_def
        split: sum.splits prod.splits list.splits)

lemma hardware_queries_reference:
  "computersystem_query h [] = enclosure_fields h"
  "bios_query h [] = serial_fields h"
  "baseboard_query h [] = motherboard_fields h"
  by (simp_all add: computersystem_query_def bios_query_def baseboard_query_def
        enclosure_fields_def serial_fields_def motherboard_fields_def
        query_two_fields_reference query_one_field_reference)

section \<open>The hardware probe keeps what succeeded\<close>

text \<open>
  C8. Each of the three inventory queries of \<^verbatim>\<open>get_hardware_info\<close> yields, on its own,
  what the outcome of its own command gives: nothing when the command raises, returns a
  code other than 0 or prints no row under the header, and otherwise its fields
  (manufacturer and model when the row has two words; the serial number; motherboard
  manufacturer and model when the row has two words). The result has an \<^verbatim>\<open>Error\<close> field if
  and only if all three yield nothing, and it is then that single field; otherwise the
  result is exactly the fields the three queries yield, in order.
\<close>

theorem hardware_error_iff_all_fail:
  "computersystem_query h [] = enclosure_fields h
   \<and> bios_query h [] = serial_fields h
   \<and> baseboard_query h [] = motherboard_fields h
   \<and> ((getitem (get_hardware_info h) ''Error'' \<noteq> None)
        = (enclosure_fields h = [] \<and> serial_fields h = [] \<and> motherboard_fields h = []))
   \<and> (enclosure_fields h = [] \<and> serial_fields h = [] \<and> motherboard_fields h = []
        \<longrightarrow> get_hardware_info h = [(''Error'', PStr ''Unable to retrieve hardware information'')])
   \<and> (\<not> (enclosure_fields h = [] \<and> serial_fields h = [] \<and> motherboard_fields h = [])
        \<longrightarrow> get_hardware_info h = enclosure_fields h @ serial_fields h @ motherboard_fields h)"
proof -
  define q1 where "q1 = enclosure_fields h"
  define q2 where "q2 = serial_fields h"
  define q3 where "q3 = motherboard_fields h"
  have r1: "computersystem_query h [] = q1" and r2: "bios_query h [] = q2"
    and r3: "baseboard_query h [] = q3"
    unfolding q1_def q2_def q3_def by (rule hardware_queries_reference)+
  have c1: "q1 = [] \<or> (\<exists>a b. q1 = [(''Manufacturer'', PStr a), (''Model'', PStr b)])"
    using computersystem_fields [of h] by (simp only: r1)
  have c2: "q2 = [] \<or> (\<exists>a. q2 = [(''Serial Number'', PStr a)])"
    using bios_fields [of h] by (simp only: r2)
  have c3: "q3 = [] \<or> (\<exists>a b. q3 =
         [(''Motherboard Manufacturer'', PStr a), (''Motherboard Model'', PStr b)])"
    using baseboard_fields [of h] by (simp only: r3)
  have "baseboard_query h (bios_query h (computersystem_query h [])) = q1 @ q2 @ q3"
    using hardware_concat [of h] by (simp only: r1 r2 r3)
  then have g: "get_hardware_info h =
      (if q1 @ q2 @ q3 = [] then [(''Error'', PStr ''Unable to retrieve hardware information'')]
       else q1 @ q2 @ q3)"
    by (simp add: get_hardware_info_def Let_def)
  have n1: "map_of q1 ''Error'' = None" using c1 by auto
  have n2: "map_of q2 ''Error'' = None" using c2 by auto
  have n3: "map_of q3 ''Error'' = None" using c3 by auto
  have none: "map_of (q1 @ q2 @ q3) ''Error'' = None"
    using n1 n2 n3 by (simp add: map_add_def)
  have e: "(getitem (get_hardware_info h) ''Error'' \<noteq> None) = (q1 = [] \<and> q2 = [] \<and> q3 = [])"
  proof (cases "q1 @ q2 @ q3 = []")
    case True
    then show ?thesis by (simp add: g getitem_def)
  next
    case False
    then have "getitem (get_hardware_info h) ''Error'' = None"
      using none by (simp only: g getitem_def if_False)
    then show ?thesis using False by simp
  qed
  have a: "q1 = [] \<and> q2 = [] \<and> q3 = []
        \<longrightarrow> get_hardware_info h = [(''Error'', PStr ''Unable to retrieve hardware information'')]"
    by (simp add: g)
  have b: "\<not> (q1 = [] \<and> q2 = [] \<and> q3 = []) \<longrightarrow> get_hardware_info h = q1 @ q2 @ q3"
    by (auto simp: g)
  show ?thesis
    using r1 r2 r3 e a b unfolding q1_def q2_def q3_def by (intro conjI)
qed

lemma no_wmic_host_fields:
  "enclosure_fields no_wmic_host = []"
  "serial_fields no_wmic_host = []"
  "motherboard_fields no_wmic_host = []"
  by (simp_all add: enclosure_fields_def serial_fields_def motherboard_fields_def
        pair_fields_def inventory_row_def no_wmic_host_def)

lemma sample_host_fields:
  "enclosure_fields sample_host = []"
  "serial_fields sample_host = [(''Serial Number'', PStr ''PF2ABC12'')]"
  "motherboard_fields sample_host = []"
  by (simp_all add: enclosure_fields_def serial_fields_def motherboard_fields_def
        pair_fields_def inventory_row_def sample_host_def strip_def is_space_def)

lemma wmic_host_fields:
  "enclosure_fields wmic_host
     = [(''Manufacturer'', PStr ''LENOVO''), (''Model'', PStr ''ThinkPad T14'')]"
  "serial_fields wmic_host = [(''Serial Number'', PStr ''PF2ABC12'')]"
  "motherboard_fields wmic_host
     = [(''Motherboard Manufacturer'', PStr ''LENOVO''),
        (''Motherboard Model'', PStr ''20W0004UUS'')]"
  by (simp_all add: enclosure_fields_def serial_fields_def motherboard_fields_def
        pair_fields_def inventory_row_def wmic_host_def strip_def is_space_def)

lemma nbsp_host_fields:
  "enclosure_fields nbsp_host = []"
  "serial_fields nbsp_host = []"
  "motherboard_fields nbsp_host = []"
  by (simp_all add: enclosure_fields_def serial_fields_def motherboard_fields_def
        pair_fields_def inventory_row_def nbsp_host_def strip_def is_space_def)

theorem hardware_error_iff_all_fail_witness:
  "get_hardware_info no_wmic_host
     = [(''Error'', PStr ''Unable to retrieve hardware information'')]
   \<and> get_hardware_info nbsp_host
     = [(''Error'', PStr ''Unable to retrieve hardware information'')]
   \<and> get_hardware_info sample_host = [(''Serial Number'', PStr ''PF2ABC12'')]
   \<and> getitem (get_hardware_info sample_host) ''Error'' = None
   \<and> get_hardware_info wmic_host
     = [(''Manufacturer'', PStr ''LENOVO''), (''Model'', PStr ''ThinkPad T14''),
        (''Serial Number'', PStr ''PF2ABC12''),
        (''Motherboard Manufacturer'', PStr ''LENOVO''),
        (''Motherboard Model'', PStr ''20W0004UUS'')]"
proof -
  from hardware_error_iff_all_fail [of no_wmic_host] no_wmic_host_fields
  have a: "get_hardware_info no_wmic_host
     = [(''Error'', PStr ''Unable to retrieve hardware information'')]"
    by simp
  from hardware_error_iff_all_fail [of nbsp_host] nbsp_host_fields
  have b: "get_hardware_info nbsp_host
     = [(''Error'', PStr ''Unable to retrieve hardware information'')]"
    by simp
  from hardware_error_iff_all_fail [of sample_host] sample_host_fields
  have c: "get_hardware_info sample_host = [(''Serial Number'', PStr ''PF2ABC12'')]"
    and d: "getitem (get_hardware_info sample_host) ''Error'' = None"
    by (simp_all add: getitem_def)
  from hardware_error_iff_all_fail [of wmic_host] wmic_host_fields
  have e: "get_hardware_info wmic_host
     = [(''Manufacturer'', PStr ''LENOVO''), (''Model'', PStr ''ThinkPad T14''),
        (''Serial Number'', PStr ''PF2ABC12''),
        (''Motherboard Manufacturer'', PStr ''LENOVO''),
        (''Motherboard Model'', PStr ''20W0004UUS'')]"
    by simp
  show ?thesis by (intro conjI a b c d e)
qed

lemma getitem_setitem: "getitem (setitem d k v) k' = (if k' = k then Some v else getitem d k')"
  by (simp add: getitem_def setitem_def update_conv')

lemma setitem_not_empty: "setitem d k v \<noteq> []"
  unfolding setitem_def by (cases d) auto

lemma record_version_props:
  "record_version h p k label info \<noteq> []"
  "getitem (record_version h p k label info) ''Version'' = Some (PStr label)"
  by (auto simp: record_version_def Let_def getitem_setitem setitem_not_empty
        split: sum.splits)

lemma record_version_registry:
  assumes "winreg_query_value h (install_root p k ''Word'') ''Path'' = Inl e1"
    and "winreg_query_value h (install_root p k ''Excel'') ''Path'' = Inl e2"
  shows "getitem (record_version h p k label info) ''Detected Via'' = Some (PStr ''Registry'')"
  using assms by (simp add: record_version_def Let_def getitem_setitem)

lemma scan_subkeys_known:
  assumes "first_known keys = Some k"
  shows "\<exists>label. map_of office_versions k = Some label
           \<and> scan_subkeys h p keys info = Inr (record_version h p k label info)"
  using assms
proof (induction keys)
  case Nil
  then show ?case by simp
next
  case (Cons r rs)
  show ?case
  proof (cases r)
    case (Inl e)
    then show ?thesis using Cons.prems by simp
  next
    case (Inr subkey_name)
    then show ?thesis using Cons by (cases "map_of office_versions subkey_name") auto
  qed
qed

lemma scan_subkeys_unknown:
  assumes "first_known keys = None"
  shows "scan_subkeys h p keys info = Inr info \<or> (\<exists>e. scan_subkeys h p keys info = Inl e)"
  using assms
proof (induction keys)
  case Nil
  then show ?case by simp
next
  case (Cons r rs)
  show ?case
  proof (cases r)
    case (Inl e)
    then show ?thesis by simp
  next
    case (Inr subkey_name)
    then show ?thesis using Cons by (cases "map_of office_versions subkey_name") auto
  qed
qed

lemma scan_one_path_none:
  assumes "path_match h p = None"
  shows "scan_paths h (p # rest) info = scan_paths h rest info"
proof (cases "winreg_enum_keys h p")
  case (Inl e)
  then show ?thesis by (simp add: bind_res_def)
next
  case (Inr keys)
  then have "first_known keys = None" using assms by (simp add: path_match_def)
  from scan_subkeys_unknown [OF this, of h p info] show ?thesis
    using Inr by (auto simp: bind_res_def)
qed

lemma scan_one_path_some:
  assumes "path_match h p = Some k"
  shows "\<exists>label. map_of office_versions k = Some label
           \<and> scan_paths h (p # rest) info = scan_paths h rest (record_version h p k label info)"
proof (cases "winreg_enum_keys h p")
  case (Inl e)
  then show ?thesis using assms by (simp add: path_match_def)
next
  case (Inr keys)
  then have "first_known keys = Some k" using assms by (simp add: path_match_def)
  from scan_subkeys_known [OF this, of h p info] show ?thesis
    using Inr by (auto simp: bind_res_def)
qed

lemma office_paths_list: "office_paths = [office_paths ! 0, office_paths ! 1]"
  by (simp add: office_paths_def)

lemma scan_paths_match:
  assumes "registry_match h = Some (p, k)"
  shows "\<exists>label. map_of office_versions k = Some label
           \<and> scan_paths h office_paths [] = record_version h p k label []"
proof (cases "path_match h (office_paths ! 0)")
  case None
  then have m1: "path_match h (office_paths ! 1) = Some k" and p: "p = office_paths ! 1"
    using assms by (auto simp: registry_match_def split: option.splits)
  have "scan_paths h [office_paths ! 0, office_paths ! 1] [] = scan_paths h [office_paths ! 1] []"
    by (rule scan_one_path_none [OF None])
  moreover from scan_one_path_some [OF m1, of "[]" "[]"] obtain label where
    "map_of office_versions k = Some label"
    "scan_paths h [office_paths ! 1] [] = record_version h (office_paths ! 1) k label []"
    by auto
  ultimately show ?thesis using p office_paths_list by metis
next
  case (Some k0)
  then have m1: "path_match h (office_paths ! 1) = None" and k: "k0 = k"
    and p: "p = office_paths ! 0"
    using assms by (auto simp: registry_match_def split: option.splits)
  from scan_one_path_some [OF Some, of "[office_paths ! 1]" "[]"] k obtain label where
    "map_of office_versions k = Some label"
    "scan_paths h [office_paths ! 0, office_paths ! 1] []
       = scan_paths h [office_paths ! 1] (record_version h (office_paths ! 0) k label [])"
    by auto
  moreover have "scan_paths h [office_paths ! 1] info = info" for info
    using scan_one_path_none [OF m1, of "[]" info] by simp
  ultimately show ?thesis using p office_paths_list by metis
qed

lemma scan_paths_no_match:
  assumes "no_known_version h"
  shows "scan_paths h office_paths [] = []"
proof -
  have m0: "path_match h (office_paths ! 0) = None" and m1: "path_match h (office_paths ! 1) = None"
    using assms by (simp_all add: no_known_version_def)
  have "scan_paths h [office_paths ! 0, office_paths ! 1] [] = []"
    using scan_one_path_none [OF m0, of "[office_paths ! 1]" "[]"]
      scan_one_path_none [OF m1, of "[]" "[]"]
    by simp
  then show ?thesis using office_paths_list by metis
qed

lemma scan_common_paths_absent:
  "list_all (\<lambda>p. \<not> os_path_exists h p) paths \<Longrightarrow> scan_common_paths h paths info = info"
  by (induction paths) simp_all

lemma office_info_match:
  assumes "registry_match h = Some (p, k)"
  shows "\<exists>label. map_of office_versions k = Some label
           \<and> get_office_info h = record_version h p k label []"
proof -
  from scan_paths_match [OF assms] obtain label where
    l: "map_of office_versions k = Some label"
    and s: "scan_paths h office_paths [] = record_version h p k label []"
    by blast
  have "get_office_info h = record_version h p k label []"
    using record_version_props(1) [of h p k label "[]"] s
    by (simp add: get_office_info_def Let_def)
  then show ?thesis using l by blast
qed

lemma office_version_label:
  assumes "registry_match h = Some (p, k)"
  shows "getitem (get_office_info h) ''Version'' = map_option PStr (map_of office_versions k)"
proof -
  from office_info_match [OF assms] obtain label where
    "map_of office_versions k = Some label"
    "get_office_info h = record_version h p k label []"
    by blast
  then show ?thesis by (simp add: record_version_props)
qed

section \<open>The office probe: the first known version enumerated wins\<close>

text \<open>
  C7, as amended. A registry path matches with the first known version token enumerated
  under it. When exactly one of the two office registry paths matches and its token is
  \<^verbatim>\<open>16.0\<close>, the probe reports the version \<^verbatim>\<open>Office 2016/2019/2021/365\<close> (in general: the label
  of that token). When neither path matches and neither conventional install location
  exists, the result is the single field \<^verbatim>\<open>Status = Not detected\<close>. When the one match has
  neither a readable Word nor a readable Excel install root, \<^verbatim>\<open>Detected Via\<close> is \<^verbatim>\<open>Registry\<close>.
\<close>

theorem office_first_match_wins:
  "(\<forall>p k. registry_match h = Some (p, k) \<longrightarrow>
       getitem (get_office_info h) ''Version'' = map_option PStr (map_of office_versions k))
   \<and> (\<forall>p. registry_match h = Some (p, ''16.0'') \<longrightarrow>
       getitem (get_office_info h) ''Version'' = Some (PStr ''Office 2016/2019/2021/365''))
   \<and> (no_known_version h \<and> list_all (\<lambda>p. \<not> os_path_exists h p) (common_paths h) \<longrightarrow>
       get_office_info h = [(''Status'', PStr ''Not detected'')])
   \<and> (\<forall>p k e1 e2. registry_match h = Some (p, k)
         \<and> winreg_query_value h (install_root p k ''Word'') ''Path'' = Inl e1
         \<and> winreg_query_value h (install_root p k ''Excel'') ''Path'' = Inl e2 \<longrightarrow>
       getitem (get_office_info h) ''Detected Via'' = Some (PStr ''Registry''))"
proof -
  have v: "getitem (get_office_info h) ''Version'' = map_option PStr (map_of office_versions k)"
    if "registry_match h = Some (p, k)" for p k
    using that by (rule office_version_label)
  have v16: "getitem (get_office_info h) ''Version'' = Some (PStr ''Office 2016/2019/2021/365'')"
    if "registry_match h = Some (p, ''16.0'')" for p
    using v [OF that] by (simp add: office_versions_def)
  have nd: "get_office_info h = [(''Status'', PStr ''Not detected'')]"
    if "no_known_version h \<and> list_all (\<lambda>p. \<not> os_path_exists h p) (common_paths h)"
  proof -
    from that have "scan_paths h office_paths [] = []"
      and "scan_common_paths h (common_paths h) [] = []"
      by (simp_all add: scan_paths_no_match scan_common_paths_absent)
    then show ?thesis by (simp add: get_office_info_def Let_def setitem_def)
  qed
  have dv: "getitem (get_office_info h) ''Detected Via'' = Some (PStr ''Registry'')"
    if "registry_match h = Some (p, k)
         \<and> winreg_query_value h (install_root p k ''Word'') ''Path'' = Inl e1
         \<and> winreg_query_value h (install_root p k ''Excel'') ''Path'' = Inl e2"
    for p k e1 e2
  proof -
    from that have m: "registry_match h = Some (p, k)"
      and w: "winreg_query_value h (install_root p k ''Word'') ''Path'' = Inl e1"
      and x: "winreg_query_value h (install_root p k ''Excel'') ''Path'' = Inl e2"
      by simp_all
    from office_info_match [OF m] obtain label where
      "get_office_info h = record_version h p k label []"
      by blast
    then show ?thesis using record_version_registry [OF w x] by simp
  qed
  show ?thesis using v v16 nd dv by (intro conjI allI impI)
qed


lemma sample_host_match: "registry_match sample_host = Some (office_paths ! 0, ''15.0'')"
  by (simp add: registry_match_def path_match_def sample_host_def office_paths_def
        office_versions_def backslash_def)

lemma office16_host_match: "registry_match office16_host = Some (office_paths ! 0, ''16.0'')"
  by (simp add: registry_match_def path_match_def office16_host_def sample_host_def
        office_paths_def office_versions_def backslash_def)

lemma no_office_host_match: "no_known_version no_office_host"
  by (simp add: no_known_version_def path_match_def no_office_host_def sample_host_def
        office_paths_def office_versions_def backslash_def)

text \<open>
  The claim as first stated fails: a store that contains \<^verbatim>\<open>16.0\<close> after \<^verbatim>\<open>15.0\<close> is reported
  as \<^verbatim>\<open>Office 2013\<close>, since the first known token enumerated wins.
\<close>

theorem office_label_counterexample:
  "winreg_enum_keys sample_host (office_paths ! 0) = Inr [Inr ''Common'', Inr ''15.0'', Inr ''16.0'']
   \<and> getitem (get_office_info sample_host) ''Version'' = Some (PStr ''Office 2013'')
   \<and> getitem (get_office_info sample_host) ''Version''
       \<noteq> Some (PStr ''Office 2016/2019/2021/365'')"
proof -
  have a: "winreg_enum_keys sample_host (office_paths ! 0)
             = Inr [Inr ''Common'', Inr ''15.0'', Inr ''16.0'']"
    by (simp add: sample_host_def office_paths_def)
  have b: "getitem (get_office_info sample_host) ''Version'' = Some (PStr ''Office 2013'')"
    using office_version_label [OF sample_host_match] by (simp add: office_versions_def)
  then have c: "getitem (get_office_info sample_host) ''Version''
       \<noteq> Some (PStr ''Office 2016/2019/2021/365'')"
    by simp
  show ?thesis by (intro conjI a b c)
qed

theorem office_first_match_wins_witness:
  "registry_match office16_host = Some (office_paths ! 0, ''16.0'')
   \<and> getitem (get_office_info office16_host) ''Version''
       = Some (PStr ''Office 2016/2019/2021/365'')
   \<and> getitem (get_office_info office16_host) ''Detected Via'' = Some (PStr ''Registry'')
   \<and> no_known_version no_office_host
   \<and> get_office_info no_office_host = [(''Status'', PStr ''Not detected'')]"
proof -
  note t16 = office_first_match_wins [of office16_host]
  note tno = office_first_match_wins [of no_office_host]
  have a: "getitem (get_office_info office16_host) ''Version''
       = Some (PStr ''Office 2016/2019/2021/365'')"
    using t16 office16_host_match by blast
  have w: "winreg_query_value office16_host (install_root (office_paths ! 0) ''16.0'' ''Word'') ''Path''
             = Inl (PyExc FileNotFoundError ''The system cannot find the file specified'')"
    by (simp add: office16_host_def sample_host_def install_root_def office_paths_def
          current_version_path_def backslash_def)
  have x: "winreg_query_value office16_host (install_root (office_paths ! 0) ''16.0'' ''Excel'') ''Path''
             = Inl (PyExc FileNotFoundError ''The system cannot find the file specified'')"
    by (simp add: office16_host_def sample_host_def install_root_def office_paths_def
          current_version_path_def backslash_def)
  have b: "getitem (get_office_info office16_host) ''Detected Via'' = Some (PStr ''Registry'')"
    using t16 office16_host_match w x by blast
  have "list_all (\<lambda>p. \<not> os_path_exists no_office_host p) (common_paths no_office_host)"
    by (simp add: no_office_host_def sample_host_def common_paths_def)
  then have c: "get_office_info no_office_host = [(''Status'', PStr ''Not detected'')]"
    using tno no_office_host_match by blast
  show ?thesis by (intro conjI office16_host_match a b no_office_host_match c)
qed

lemma bit_length_le: "n < 2 ^ k \<Longrightarrow> bit_length n \<le> k"
proof (induction k arbitrary: n)
  case 0
  then have "n = 0" by simp
  then show ?case by (subst bit_length.simps) simp
next
  case (Suc k)
  show ?case
  proof (cases "n = 0")
    case True
    then show ?thesis by (subst bit_length.simps) simp
  next
    case False
    have "n div 2 < 2 ^ k" using Suc.prems by simp
    from Suc.IH [OF this] show ?thesis using False by (subst bit_length.simps) simp
  qed
qed

lemma round_53_exact:
  assumes "n < 2 ^ 53"
  shows "round_53 n = n"
proof -
  have "bit_length n - 53 = 0" using bit_length_le [OF assms] by simp
  then show ?thesis by (simp add: round_53_def)
qed

lemma round_53_error: "2 * \<bar>int (round_53 n) - int n\<bar> \<le> 2 ^ (bit_length n - 53)"
proof -
  define e where "e = bit_length n - 53"
  define P where "P = (2::nat) ^ e"
  define q where "q = n div P"
  define r where "r = n mod P"
  have Ppos: "0 < P" by (simp add: P_def)
  have n: "n = q * P + r" by (simp add: q_def r_def)
  have rlt: "r < P" using Ppos by (simp add: r_def)
  have rd: "round_53 n = (if P < 2 * r \<or> (2 * r = P \<and> odd q) then q + 1 else q) * P"
    by (simp add: round_53_def Let_def e_def P_def q_def r_def)
  have "2 * \<bar>int (round_53 n) - int n\<bar> \<le> int P"
  proof (cases "P < 2 * r \<or> (2 * r = P \<and> odd q)")
    case True
    then have "(if P < 2 * r \<or> (2 * r = P \<and> odd q) then q + 1 else q) = q + 1"
      by (rule if_P)
    then have "round_53 n = q * P + P" by (simp only: rd) simp
    then have "int (round_53 n) - int n = int P - int r" using n by simp
    moreover have "P \<le> 2 * r" using True by auto
    ultimately show ?thesis using rlt by simp
  next
    case False
    then have "(if P < 2 * r \<or> (2 * r = P \<and> odd q) then q + 1 else q) = q"
      by (rule if_not_P)
    then have "round_53 n = q * P" by (simp only: rd)
    then have "int (round_53 n) - int n = - int r" using n by simp
    moreover have "2 * r \<le> P" using False by auto
    ultimately show ?thesis by simp
  qed
  then show ?thesis by (simp add: P_def e_def)
qed

lemma round_53_close:
  assumes "n < 2 ^ 64"
  shows "\<bar>int (round_53 n) - int n\<bar> \<le> 2 ^ 10"
proof -
  have "bit_length n - 53 \<le> 11" using bit_length_le [OF assms] by simp
  then have "(2::int) ^ (bit_length n - 53) \<le> 2 ^ 11"
    by (rule power_increasing) simp
  then have "2 * \<bar>int (round_53 n) - int n\<bar> \<le> 2 ^ 11"
    using round_53_error [of n] by linarith
  then show ?thesis by simp
qed

lemma div_pow2_count:
  assumes "0 \<le> n" "n < 2 ^ 64"
  shows "div_pow2 n s = Inr (of_nat (round_53 (nat n)) / 2 ^ s)"
proof -
  have m: "nat n < 2 ^ 64" using assms by (simp add: nat_less_iff)
  have "int (round_53 (nat n)) \<le> int (nat n) + 2 ^ 10"
    using round_53_close [OF m] by linarith
  also have "\<dots> < 2 ^ 64 + 2 ^ 10" using assms by simp
  also have "\<dots> \<le> (2::int) ^ 1024" by simp
  also have "\<dots> \<le> 2 ^ (1024 + s)" by (rule power_increasing) simp_all
  finally have "int (round_53 (nat n)) < 2 ^ (1024 + s)" .
  then have "round_53 (nat n) < 2 ^ (1024 + s)"
    by (metis of_nat_less_iff of_nat_numeral of_nat_power)
  then show ?thesis using assms by (simp add: div_pow2_def Let_def)
qed

lemma digit_char_digit: "d < 10 \<Longrightarrow> is_digit (digit_char d)"
proof -
  assume d: "d < 10"
  have "digit_char d = (''0123456789'' @ ''abcdef'') ! d" by (simp add: digit_char_def)
  also have "\<dots> = ''0123456789'' ! d" using d by (subst nth_append) simp
  finally have "digit_char d = ''0123456789'' ! d" .
  moreover have "''0123456789'' ! d \<in> set ''0123456789''" by (rule nth_mem) (use d in simp)
  ultimately show ?thesis by (simp only: is_digit_def)
qed

lemma str_nat_small: "n < 10 \<Longrightarrow> str_nat n = [digit_char n]"
  by (subst str_nat.simps) simp

lemma str_nat_digits: "str_nat n \<noteq> [] \<and> list_all is_digit (str_nat n)"
proof (induction n rule: str_nat.induct)
  case (1 n)
  show ?case
  proof (cases "n < 10")
    case True
    then show ?thesis by (simp add: str_nat_small digit_char_digit)
  next
    case False
    have "is_digit (digit_char (n mod 10))" by (rule digit_char_digit) simp
    then show ?thesis using False "1.IH" by (subst (1 2) str_nat.simps) simp
  qed
qed

lemma round_half_even_near: "\<bar>of_int (round_half_even x) - x\<bar> \<le> 1 / 2"
proof -
  define f where "f = \<lfloor>x\<rfloor>"
  define d where "d = x - of_int f"
  have d: "0 \<le> d" "d < 1" unfolding d_def f_def by linarith+
  have x: "x = of_int f + d" by (simp add: d_def)
  have r: "round_half_even x =
      (if d < 1 / 2 then f else if 1 / 2 < d then f + 1 else if even f then f else f + 1)"
    by (simp add: round_half_even_def Let_def f_def d_def)
  consider "d < 1 / 2" | "1 / 2 < d" | "d = 1 / 2" by linarith
  then show ?thesis
  proof cases
    case 1
    then have "round_half_even x = f" using r by simp
    then show ?thesis using x d 1 by simp
  next
    case 2
    then have "round_half_even x = f + 1" using r by simp
    then show ?thesis using x d 2 by simp
  next
    case 3
    then have "round_half_even x = f \<or> round_half_even x = f + 1" using r by simp
    then show ?thesis using x 3 by auto
  qed
qed

lemma round_half_even_nonneg: "0 \<le> x \<Longrightarrow> 0 \<le> round_half_even x"
  by (auto simp: round_half_even_def Let_def)

lemma format_2f_nonneg:
  assumes "0 \<le> y"
  shows "\<exists>c. format_2f y = str_nat (c div 100) @ ''.''
                 @ [digit_char (c mod 100 div 10), digit_char (c mod 10)]
           \<and> \<bar>of_nat c - y * 100\<bar> \<le> 1 / 2
           \<and> str_nat (c div 100) \<noteq> []
           \<and> list_all is_digit
                (str_nat (c div 100) @ [digit_char (c mod 100 div 10), digit_char (c mod 10)])"
proof -
  define c where "c = nat (round_half_even (\<bar>y\<bar> * 100))"
  have nn: "0 \<le> round_half_even (y * 100)"
    by (rule round_half_even_nonneg) (use assms in simp)
  have "(of_nat c :: rat) = of_int (round_half_even (y * 100))"
    using nn assms by (simp add: c_def)
  then have near: "\<bar>of_nat c - y * 100\<bar> \<le> 1 / 2"
    using round_half_even_near [of "y * 100"] by simp
  have f: "format_2f y = str_nat (c div 100) @ ''.''
             @ [digit_char (c mod 100 div 10), digit_char (c mod 10)]"
    using assms by (simp add: format_2f_def Let_def c_def)
  have "c mod 100 div 10 < 10" by simp
  then have d1: "is_digit (digit_char (c mod 100 div 10))" by (rule digit_char_digit)
  have d2: "is_digit (digit_char (c mod 10))" by (rule digit_char_digit) simp
  show ?thesis using f near str_nat_digits [of "c div 100"] d1 d2 by auto
qed

lemma div_pow2_value:
  assumes "byte_count n"
  shows "\<exists>y. div_pow2 n s = Inr y \<and> 0 \<le> y
           \<and> \<bar>y * 2 ^ s - of_int n\<bar> \<le> 2 ^ 10
           \<and> (n < 2 ^ 53 \<longrightarrow> y = of_int n / 2 ^ s)"
proof -
  have n: "0 \<le> n" "n < 2 ^ 64" using assms by (simp_all add: byte_count_def)
  define m where "m = round_53 (nat n)"
  define y :: rat where "y = of_nat m / 2 ^ s"
  have v: "div_pow2 n s = Inr y" using div_pow2_count [OF n] by (simp add: y_def m_def)
  have ys: "y * 2 ^ s = of_nat m" by (simp add: y_def)
  have "nat n < 2 ^ 64" using n by (simp add: nat_less_iff)
  from round_53_close [OF this] have "\<bar>int m - n\<bar> \<le> 2 ^ 10" using n by (simp add: m_def)
  then have "\<bar>(of_int (int m - n) :: rat)\<bar> \<le> of_int (2 ^ 10)"
    by (simp only: of_int_abs [symmetric] of_int_le_iff)
  then have e: "\<bar>y * 2 ^ s - of_int n\<bar> \<le> 2 ^ 10" by (simp add: ys)
  have x: "y = of_int n / 2 ^ s" if "n < 2 ^ 53"
  proof -
    have "nat n < 2 ^ 53" using that n by (simp add: nat_less_iff)
    then have "m = nat n" unfolding m_def by (rule round_53_exact)
    then show ?thesis using n by (simp add: y_def)
  qed
  have "0 \<le> y" by (simp add: y_def)
  then show ?thesis using v e x by blast
qed

lemma format_gb_count:
  assumes "byte_count n"
  shows "\<exists>(y::rat) c. format_gb n =
             Inr (str_nat (c div 100) @ ''.''
                    @ [digit_char (c mod 100 div 10), digit_char (c mod 10)] @ '' GB'')
           \<and> \<bar>of_nat c - y * 100\<bar> \<le> 1 / 2
           \<and> \<bar>y - of_int n / 2 ^ 30\<bar> \<le> 1 / 2 ^ 20
           \<and> (n < 2 ^ 53 \<longrightarrow> y = of_int n / 2 ^ 30)
           \<and> str_nat (c div 100) \<noteq> []
           \<and> list_all is_digit
                (str_nat (c div 100) @ [digit_char (c mod 100 div 10), digit_char (c mod 10)])"
proof -
  from div_pow2_value [OF assms, of 30] obtain y where
    v: "div_pow2 n 30 = Inr y" and nn: "0 \<le> y"
    and e: "\<bar>y * 2 ^ 30 - of_int n\<bar> \<le> 2 ^ 10"
    and x: "n < 2 ^ 53 \<longrightarrow> y = of_int n / 2 ^ 30"
    by blast
  have "y - of_int n / 2 ^ 30 = (y * 2 ^ 30 - of_int n) / 2 ^ 30" by (simp add: field_simps)
  then have "\<bar>y - of_int n / 2 ^ 30\<bar> = \<bar>(y * 2 ^ 30 - of_int n) / 2 ^ 30\<bar>" by (rule arg_cong)
  also have "\<dots> = \<bar>y * 2 ^ 30 - of_int n\<bar> / 2 ^ 30" by (subst abs_divide) simp
  also have "\<dots> \<le> 2 ^ 10 / 2 ^ 30" using e by (rule divide_right_mono) simp
  finally have close: "\<bar>y - of_int n / 2 ^ 30\<bar> \<le> 1 / 2 ^ 20" by simp
  from format_2f_nonneg [OF nn] obtain c where
    f: "format_2f y = str_nat (c div 100) @ ''.''
                 @ [digit_char (c mod 100 div 10), digit_char (c mod 10)]"
    and near: "\<bar>of_nat c - y * 100\<bar> \<le> 1 / 2"
    and ne: "str_nat (c div 100) \<noteq> []"
    and dg: "list_all is_digit
                (str_nat (c div 100) @ [digit_char (c mod 100 div 10), digit_char (c mod 10)])"
    by blast
  have "format_gb n = Inr (str_nat (c div 100) @ ''.''
                    @ [digit_char (c mod 100 div 10), digit_char (c mod 10)] @ '' GB'')"
    by (simp add: format_gb_def bind_res_def v f)
  then show ?thesis using near close x ne dg by blast
qed

lemma format_gb_total: "byte_count n \<Longrightarrow> \<exists>s. format_gb n = Inr s"
  using format_gb_count by blast

lemma format_mb_total: "byte_count n \<Longrightarrow> \<exists>s. format_mb n = Inr s"
  using div_pow2_value [of n 20] by (auto simp: format_mb_def bind_res_def)


lemma getitem_partition_loop:
  assumes "distinct (map device parts)"
  shows "getitem (partition_loop h parts info) dev =
           (case find (\<lambda>p. device p = dev) parts of
              None \<Rightarrow> getitem info dev
            | Some p \<Rightarrow>
                (case partition_fields h p of
                   Inl e \<Rightarrow> getitem info dev
                 | Inr entry \<Rightarrow> Some (PDict entry)))"
  using assms
proof (induction parts arbitrary: info)
  case Nil
  then show ?case by simp
next
  case (Cons part rest)
  have d: "distinct (map device rest)" using Cons.prems by simp
  have nin: "device part \<notin> set (map device rest)" using Cons.prems by simp
  have fresh: "device p \<noteq> device part" if "p \<in> set rest" for p
  proof
    assume e: "device p = device part"
    have "device p \<in> set (map device rest)" using that by (simp only: set_map) (rule imageI)
    then show False using nin by (simp only: e)
  qed
  note IH = Cons.IH [OF d]
  show ?case
  proof (cases "device part = dev")
    case True
    then have "find (\<lambda>p. device p = dev) rest = None"
      using fresh by (simp add: find_None_iff)
    then have r: "getitem (partition_loop h rest info') dev = getitem info' dev" for info'
      using IH [of info'] by simp
    show ?thesis using True r
      by (cases "partition_fields h part") (simp_all add: getitem_setitem)
  next
    case False
    then have g: "getitem (setitem info (device part) v) dev = getitem info dev" for v
      by (auto simp: getitem_setitem)
    show ?thesis using False IH
      by (cases "partition_fields h part") (simp_all add: g split: option.splits sum.splits)
  qed
qed

lemma partition_fields_sizes:
  assumes "psutil_disk_usage h (mountpoint part) = Inr u"
    and "format_gb (du_total u) = Inr t" "format_gb (du_used u) = Inr us"
    and "format_gb (du_free u) = Inr f"
  shows "\<exists>entry. partition_fields h part = Inr entry
           \<and> getitem entry ''Total Size'' = Some (PStr t)
           \<and> getitem entry ''Used'' = Some (PStr us)
           \<and> getitem entry ''Free'' = Some (PStr f)"
  using assms by (simp add: partition_fields_def bind_res_def getitem_def)

lemma memory_fields_sizes:
  assumes "psutil_virtual_memory h = Inr vm" "psutil_swap_memory h = Inr sw"
    and "format_gb (vm_total vm) = Inr t" "format_gb (vm_available vm) = Inr a"
    and "format_gb (vm_used vm) = Inr u" "format_gb (sw_total sw) = Inr st"
    and "format_gb (sw_used sw) = Inr su"
  shows "getitem (get_memory_info h) ''Total RAM'' = Some (PStr t)
       \<and> getitem (get_memory_info h) ''Available RAM'' = Some (PStr a)
       \<and> getitem (get_memory_info h) ''Used RAM'' = Some (PStr u)
       \<and> getitem (get_memory_info h) ''Total Swap'' = Some (PStr st)
       \<and> getitem (get_memory_info h) ''Used Swap'' = Some (PStr su)"
  using assms by (simp add: get_memory_info_def memory_fields_def bind_res_def getitem_def)

lemma disk_info_entry:
  assumes parts: "psutil_disk_partitions h = Inr parts" "distinct (map device parts)"
    and part: "part \<in> set parts" "device part \<noteq> ''IO Statistics''"
    and io: "psutil_disk_io_counters h = Inr io"
      "case io of None \<Rightarrow> True | Some c \<Rightarrow> byte_count (read_bytes c) \<and> byte_count (write_bytes c)"
    and entry: "partition_fields h part = Inr entry"
  shows "getitem (get_disk_info h) (device part) = Some (PDict entry)"
proof -
  have f: "find (\<lambda>p. device p = device part) parts = Some part"
    using parts(2) part(1)
  proof (induction parts)
    case Nil
    then show ?case by simp
  next
    case (Cons a rest)
    then show ?case by (cases "a = part") auto
  qed
  have l: "getitem (partition_loop h parts []) (device part) = Some (PDict entry)"
    using getitem_partition_loop [OF parts(2), of h "[]" "device part"] f entry by simp
  show ?thesis
  proof (cases io)
    case None
    then show ?thesis using parts(1) io(1) l
      by (simp add: get_disk_info_def disk_fields_def bind_res_def Let_def)
  next
    case (Some c)
    then have "byte_count (read_bytes c)" "byte_count (write_bytes c)" using io(2) by simp_all
    then obtain rb wb where "format_mb (read_bytes c) = Inr rb" "format_mb (write_bytes c) = Inr wb"
      using format_mb_total by blast
    then show ?thesis using parts(1) io(1) l part(2) Some
      by (simp add: get_disk_info_def disk_fields_def bind_res_def Let_def getitem_setitem)
  qed
qed

lemma format_gb_one: "format_gb (2 ^ 30) = Inr ''1.00 GB''"
proof -
  have "div_pow2 (2 ^ 30) 30 = Inr (of_nat (round_53 (nat (2 ^ 30))) / 2 ^ 30)"
    by (rule div_pow2_count) simp_all
  moreover have "round_53 (nat (2 ^ 30)) = nat (2 ^ 30)" by (rule round_53_exact) simp
  ultimately have "div_pow2 (2 ^ 30) 30 = Inr 1" by simp
  moreover have "format_2f 1 = ''1.00''"
    by (simp add: format_2f_def round_half_even_def Let_def str_nat_small digit_char_def)
  ultimately show ?thesis by (simp add: format_gb_def bind_res_def)
qed

lemma format_gb_exact:
  assumes "0 \<le> n" "n < 2 ^ 53"
  shows "format_gb n = Inr (format_2f (of_int n / 2 ^ 30) @ '' GB'')"
proof -
  have "n < 2 ^ 64" using assms(2) by simp
  then have "div_pow2 n 30 = Inr (of_nat (round_53 (nat n)) / 2 ^ 30)"
    using assms(1) by (intro div_pow2_count)
  moreover have "round_53 (nat n) = nat n"
    by (rule round_53_exact) (use assms in \<open>simp add: nat_less_iff\<close>)
  ultimately show ?thesis using assms(1) by (simp add: format_gb_def bind_res_def)
qed

lemma floor_numeral_quotient:
  "\<lfloor>(numeral a :: rat) / numeral b\<rfloor> = numeral a div numeral b"
  using floor_divide_of_int_eq [of "numeral a" "numeral b", where ?'a = rat] by simp

lemma sample_sizes:
  "format_gb 1073741824 = Inr ''1.00 GB''"
  "format_gb 134217728 = Inr ''0.12 GB''"
  "format_gb 402653184 = Inr ''0.38 GB''"
  "format_gb 939524096 = Inr ''0.88 GB''"
  "format_gb 0 = Inr ''0.00 GB''"
  by (simp_all add: format_gb_exact format_2f_def round_half_even_def Let_def str_nat_small
        digit_char_def floor_numeral_quotient)

section \<open>Sizes in gibibytes, two decimals\<close>

text \<open>
  C6. For every byte count the host can supply (an unsigned 64-bit number), the size
  string \<^verbatim>\<open>f"{n / (1024**3):.2f} GB"\<close> is an integer part of decimal digits, a point, exactly
  two decimal digits and \<^verbatim>\<open> GB\<close>; the digits are the hundredths nearest to the quotient
  \<open>y\<close> of the division by \<open>2 ^ 30\<close>, which is exact below \<open>2 ^ 53\<close> bytes and within \<open>2 ^ -20\<close>
  above. \<open>2 ^ 30\<close> bytes render as \<^verbatim>\<open>1.00 GB\<close>. The five size fields of the memory probe and
  the three size fields of each partition entry of the disk probe are these strings for
  the byte counts psutil reports.
\<close>

theorem size_fields_two_decimals:
  "(\<forall>n. byte_count n \<longrightarrow>
      (\<exists>(y::rat) c.
         format_gb n =
           Inr (str_nat (c div 100) @ ''.''
                  @ [digit_char (c mod 100 div 10), digit_char (c mod 10)] @ '' GB'')
         \<and> \<bar>of_nat c - y * 100\<bar> \<le> 1 / 2
         \<and> \<bar>y - of_int n / 2 ^ 30\<bar> \<le> 1 / 2 ^ 20
         \<and> (n < 2 ^ 53 \<longrightarrow> y = of_int n / 2 ^ 30)
         \<and> str_nat (c div 100) \<noteq> []
         \<and> list_all is_digit
              (str_nat (c div 100) @ [digit_char (c mod 100 div 10), digit_char (c mod 10)])))
   \<and> format_gb (2 ^ 30) = Inr ''1.00 GB''
   \<and> (\<forall>vm sw.
        psutil_virtual_memory h = Inr vm \<and> psutil_swap_memory h = Inr sw
        \<and> list_all byte_count
            [vm_total vm, vm_available vm, vm_used vm, sw_total sw, sw_used sw] \<longrightarrow>
        map (getitem (get_memory_info h))
            [''Total RAM'', ''Available RAM'', ''Used RAM'', ''Total Swap'', ''Used Swap'']
          = map rendered_gb
              [vm_total vm, vm_available vm, vm_used vm, sw_total sw, sw_used sw])
   \<and> (\<forall>parts part u io.
        psutil_disk_partitions h = Inr parts \<and> distinct (map device parts)
        \<and> part \<in> set parts \<and> device part \<noteq> ''IO Statistics''
        \<and> psutil_disk_usage h (mountpoint part) = Inr u
        \<and> list_all byte_count [du_total u, du_used u, du_free u]
        \<and> psutil_disk_io_counters h = Inr io
        \<and> (case io of None \<Rightarrow> True
            | Some c \<Rightarrow> byte_count (read_bytes c) \<and> byte_count (write_bytes c)) \<longrightarrow>
        (\<exists>entry. getitem (get_disk_info h) (device part) = Some (PDict entry)
           \<and> map (getitem entry) [''Total Size'', ''Used'', ''Free'']
               = map rendered_gb [du_total u, du_used u, du_free u]))"
proof (intro conjI allI impI)
  fix n assume "byte_count n"
  then show "\<exists>(y::rat) c.
         format_gb n =
           Inr (str_nat (c div 100) @ ''.''
                  @ [digit_char (c mod 100 div 10), digit_char (c mod 10)] @ '' GB'')
         \<and> \<bar>of_nat c - y * 100\<bar> \<le> 1 / 2
         \<and> \<bar>y - of_int n / 2 ^ 30\<bar> \<le> 1 / 2 ^ 20
         \<and> (n < 2 ^ 53 \<longrightarrow> y = of_int n / 2 ^ 30)
         \<and> str_nat (c div 100) \<noteq> []
         \<and> list_all is_digit
              (str_nat (c div 100) @ [digit_char (c mod 100 div 10), digit_char (c mod 10)])"
    by (rule format_gb_count)
next
  show "format_gb (2 ^ 30) = Inr ''1.00 GB''" by (rule format_gb_one)
next
  fix vm sw
  assume a: "psutil_virtual_memory h = Inr vm \<and> psutil_swap_memory h = Inr sw
        \<and> list_all byte_count
            [vm_total vm, vm_available vm, vm_used vm, sw_total sw, sw_used sw]"
  then have b: "byte_count (vm_total vm)" "byte_count (vm_available vm)"
    "byte_count (vm_used vm)" "byte_count (sw_total sw)" "byte_count (sw_used sw)"
    by simp_all
  from b [THEN format_gb_total] obtain t av u st su where
    f: "format_gb (vm_total vm) = Inr t" "format_gb (vm_available vm) = Inr av"
      "format_gb (vm_used vm) = Inr u" "format_gb (sw_total sw) = Inr st"
      "format_gb (sw_used sw) = Inr su"
    by blast
  from a have "psutil_virtual_memory h = Inr vm" "psutil_swap_memory h = Inr sw" by simp_all
  from memory_fields_sizes [OF this f] f
  show "map (getitem (get_memory_info h))
            [''Total RAM'', ''Available RAM'', ''Used RAM'', ''Total Swap'', ''Used Swap'']
          = map rendered_gb
              [vm_total vm, vm_available vm, vm_used vm, sw_total sw, sw_used sw]"
    by (simp add: rendered_gb_def)
next
  fix parts part u io
  assume a: "psutil_disk_partitions h = Inr parts \<and> distinct (map device parts)
        \<and> part \<in> set parts \<and> device part \<noteq> ''IO Statistics''
        \<and> psutil_disk_usage h (mountpoint part) = Inr u
        \<and> list_all byte_count [du_total u, du_used u, du_free u]
        \<and> psutil_disk_io_counters h = Inr io
        \<and> (case io of None \<Rightarrow> True
            | Some c \<Rightarrow> byte_count (read_bytes c) \<and> byte_count (write_bytes c))"
  then have b: "byte_count (du_total u)" "byte_count (du_used u)" "byte_count (du_free u)"
    by simp_all
  from b [THEN format_gb_total] obtain t us f where
    g: "format_gb (du_total u) = Inr t" "format_gb (du_used u) = Inr us"
      "format_gb (du_free u) = Inr f"
    by blast
  from a have usage: "psutil_disk_usage h (mountpoint part) = Inr u" by simp
  from partition_fields_sizes [OF usage g] obtain entry where
    e: "partition_fields h part = Inr entry"
    and s: "getitem entry ''Total Size'' = Some (PStr t)"
      "getitem entry ''Used'' = Some (PStr us)" "getitem entry ''Free'' = Some (PStr f)"
    by blast
  from a have p: "psutil_disk_partitions h = Inr parts" "distinct (map device parts)"
    and q: "part \<in> set parts" "device part \<noteq> ''IO Statistics''"
    and i: "psutil_disk_io_counters h = Inr io"
      "case io of None \<Rightarrow> True | Some c \<Rightarrow> byte_count (read_bytes c) \<and> byte_count (write_bytes c)"
    by simp_all
  have "getitem (get_disk_info h) (device part) = Some (PDict entry)"
    using p q i e by (rule disk_info_entry)
  moreover have "map (getitem entry) [''Total Size'', ''Used'', ''Free'']
               = map rendered_gb [du_total u, du_used u, du_free u]"
    using s g by (simp add: rendered_gb_def)
  ultimately show "\<exists>entry. getitem (get_disk_info h) (device part) = Some (PDict entry)
           \<and> map (getitem entry) [''Total Size'', ''Used'', ''Free'']
               = map rendered_gb [du_total u, du_used u, du_free u]"
    by blast
qed


lemma sample_rendered:
  "rendered_gb 1073741824 = Some (PStr ''1.00 GB'')"
  "rendered_gb 134217728 = Some (PStr ''0.12 GB'')"
  "rendered_gb 402653184 = Some (PStr ''0.38 GB'')"
  "rendered_gb 939524096 = Some (PStr ''0.88 GB'')"
  "rendered_gb 0 = Some (PStr ''0.00 GB'')"
  by (simp_all add: rendered_gb_def sample_sizes)

theorem size_fields_two_decimals_witness:
  "map (getitem (get_memory_info sample_host))
       [''Total RAM'', ''Available RAM'', ''Used RAM'', ''Total Swap'', ''Used Swap'']
     = [Some (PStr ''1.00 GB''), Some (PStr ''0.12 GB''), Some (PStr ''0.38 GB''),
        Some (PStr ''0.00 GB''), Some (PStr ''0.00 GB'')]
   \<and> (\<exists>entry. getitem (get_disk_info sample_host) (device sample_partition) = Some (PDict entry)
         \<and> map (getitem entry) [''Total Size'', ''Used'', ''Free'']
             = [Some (PStr ''1.00 GB''), Some (PStr ''0.12 GB''), Some (PStr ''0.88 GB'')])"
proof -
  note t = size_fields_two_decimals [of sample_host]
  have m: "psutil_virtual_memory sample_host = Inr sample_vm
        \<and> psutil_swap_memory sample_host = Inr sample_swap
        \<and> list_all byte_count
            [vm_total sample_vm, vm_available sample_vm, vm_used sample_vm,
             sw_total sample_swap, sw_used sample_swap]"
    by (simp add: sample_host_def sample_vm_def sample_swap_def byte_count_def)
  have "map (getitem (get_memory_info sample_host))
            [''Total RAM'', ''Available RAM'', ''Used RAM'', ''Total Swap'', ''Used Swap'']
          = map rendered_gb
              [vm_total sample_vm, vm_available sample_vm, vm_used sample_vm,
               sw_total sample_swap, sw_used sample_swap]"
    using t m by blast
  then have a: "map (getitem (get_memory_info sample_host))
       [''Total RAM'', ''Available RAM'', ''Used RAM'', ''Total Swap'', ''Used Swap'']
     = [Some (PStr ''1.00 GB''), Some (PStr ''0.12 GB''), Some (PStr ''0.38 GB''),
        Some (PStr ''0.00 GB''), Some (PStr ''0.00 GB'')]"
    by (simp add: sample_vm_def sample_swap_def sample_rendered)
  have d: "psutil_disk_partitions sample_host = Inr [sample_partition]
        \<and> distinct (map device [sample_partition])
        \<and> sample_partition \<in> set [sample_partition]
        \<and> device sample_partition \<noteq> ''IO Statistics''
        \<and> psutil_disk_usage sample_host (mountpoint sample_partition) = Inr sample_usage
        \<and> list_all byte_count [du_total sample_usage, du_used sample_usage, du_free sample_usage]
        \<and> psutil_disk_io_counters sample_host = Inr None
        \<and> (case None of None \<Rightarrow> True
            | Some c \<Rightarrow> byte_count (read_bytes c) \<and> byte_count (write_bytes c))"
    by (simp add: sample_host_def sample_partition_def sample_usage_def byte_count_def
          backslash_def)
  have "\<exists>entry. getitem (get_disk_info sample_host) (device sample_partition) = Some (PDict entry)
           \<and> map (getitem entry) [''Total Size'', ''Used'', ''Free'']
               = map rendered_gb
                   [du_total sample_usage, du_used sample_usage, du_free sample_usage]"
    using t d by blast
  then have b: "\<exists>entry. getitem (get_disk_info sample_host) (device sample_partition) = Some (PDict entry)
         \<and> map (getitem entry) [''Total Size'', ''Used'', ''Free'']
             = [Some (PStr ''1.00 GB''), Some (PStr ''0.12 GB''), Some (PStr ''0.88 GB'')]"
    by (simp add: sample_usage_def sample_rendered)
  show ?thesis by (intro conjI a b)
qed

end
